theory Spec2Isabelle
  imports Main "HOL-Library.Sublist"
begin

section \<open>JavaScript values and the operations the service applies to them\<close>

text \<open>
  The service is modelled from \<^verbatim>\<open>src/index.js\<close>, lines 1--308, the fullest of the
  variants the repository holds; the title sniffing of the variant
  \<^verbatim>\<open>src/unnamed/part_000\<close> is modelled after it, and the reduced variant that
  follows in \<^verbatim>\<open>src/index.js\<close> (lines 310--491) has no resolver and is left out.
  The service works on values produced by \<^verbatim>\<open>JSON.parse\<close>.
  Such a value is \<^verbatim>\<open>null\<close>, a boolean, a number, a string, an array or an object whose
  own properties are the members of the JSON text; \<^verbatim>\<open>undefined\<close> is what reading an
  absent property gives. Modelling conventions:
  \<^item> a string is a list of code units below 256 (the Latin-1 range);
  \<^item> a number is a mathematical integer or \<^verbatim>\<open>NaN\<close> (doubles agree with the integers
    below \<open>2^53\<close>; fractions and infinities are left out);
  \<^item> an object is the association list of its own properties, the first binding of a
    key being the property's value.
\<close>

datatype jsval =
    JUndefined
  | JNull
  | JBool bool
  | JNum int
  | JStr string
  | JArr "jsval list"
  | JObj "(string \<times> jsval) list"

datatype jsnum = Fin int | NaN

datatype error = ConfigError | TransportError | SyntaxError | TypeError

text \<open>Sequencing of computations that may throw: the first exception wins.\<close>

definition ebind :: "error + 'a \<Rightarrow> ('a \<Rightarrow> error + 'b) \<Rightarrow> error + 'b" where
  "ebind m f = (case m of Inl e \<Rightarrow> Inl e | Inr x \<Rightarrow> f x)"

text \<open>\<^verbatim>\<open>ToBoolean\<close>: what \<^verbatim>\<open>if (v)\<close>, \<^verbatim>\<open>v && ...\<close> and \<^verbatim>\<open>v || ...\<close> test.\<close>

fun truthy :: "jsval \<Rightarrow> bool" where
  "truthy JUndefined = False"
| "truthy JNull = False"
| "truthy (JBool b) = b"
| "truthy (JNum n) = (n \<noteq> 0)"
| "truthy (JStr s) = (s \<noteq> [])"
| "truthy (JArr xs) = True"
| "truthy (JObj kvs) = True"

text \<open>
  \<^verbatim>\<open>v.k\<close> for a data property \<open>k\<close>. Reading a property of \<^verbatim>\<open>null\<close> or
  \<^verbatim>\<open>undefined\<close> throws a \<^verbatim>\<open>TypeError\<close>; strings and arrays have \<^verbatim>\<open>length\<close>; the
  other names the service reads (\<^verbatim>\<open>data\<close>, \<^verbatim>\<open>id\<close>, \<^verbatim>\<open>game_name\<close>, \<^verbatim>\<open>type\<close>,
  \<^verbatim>\<open>duration\<close>, \<^verbatim>\<open>title\<close>, \<^verbatim>\<open>access_token\<close>, \<^verbatim>\<open>expires_in\<close>) exist on no
  prototype, so they are \<^verbatim>\<open>undefined\<close> on everything but an object that has them.
\<close>

fun get_prop :: "jsval \<Rightarrow> string \<Rightarrow> error + jsval" where
  "get_prop JUndefined k = Inl TypeError"
| "get_prop JNull k = Inl TypeError"
| "get_prop (JBool b) k = Inr JUndefined"
| "get_prop (JNum n) k = Inr JUndefined"
| "get_prop (JStr s) k = Inr (if k = ''length'' then JNum (int (length s)) else JUndefined)"
| "get_prop (JArr xs) k = Inr (if k = ''length'' then JNum (int (length xs)) else JUndefined)"
| "get_prop (JObj kvs) k = Inr (case map_of kvs k of None \<Rightarrow> JUndefined | Some v \<Rightarrow> v)"

text \<open>\<^verbatim>\<open>v[0]\<close>.\<close>

fun index0 :: "jsval \<Rightarrow> error + jsval" where
  "index0 JUndefined = Inl TypeError"
| "index0 JNull = Inl TypeError"
| "index0 (JBool b) = Inr JUndefined"
| "index0 (JNum n) = Inr JUndefined"
| "index0 (JStr s) = Inr (case s of [] \<Rightarrow> JUndefined | c # cs \<Rightarrow> JStr [c])"
| "index0 (JArr xs) = Inr (case xs of [] \<Rightarrow> JUndefined | x # ys \<Rightarrow> x)"
| "index0 (JObj kvs) = Inr (case map_of kvs ''0'' of None \<Rightarrow> JUndefined | Some v \<Rightarrow> v)"

text \<open>\<^verbatim>\<open>v || d\<close>.\<close>

definition or_else :: "jsval \<Rightarrow> jsval \<Rightarrow> jsval" where
  "or_else v d = (if truthy v then v else d)"

text \<open>The values a \<^verbatim>\<open>for (const x of v)\<close> loop visits; only strings and arrays are iterable.\<close>

fun iterate :: "jsval \<Rightarrow> error + jsval list" where
  "iterate (JArr xs) = Inr xs"
| "iterate (JStr s) = Inr (map (\<lambda>c. JStr [c]) s)"
| "iterate v = Inl TypeError"

subsection \<open>Conversion to strings and numbers\<close>

definition digit_char :: "nat \<Rightarrow> char" where
  "digit_char d = char_of (of_char (CHR ''0'') + d)"

fun show_nat :: "nat \<Rightarrow> string" where
  "show_nat n = (if n < 10 then [digit_char n] else show_nat (n div 10) @ [digit_char (n mod 10)])"

definition show_int :: "int \<Rightarrow> string" where
  "show_int i = (if i < 0 then CHR ''-'' # show_nat (nat (- i)) else show_nat (nat i))"

fun join_comma :: "string list \<Rightarrow> string" where
  "join_comma [] = []"
| "join_comma [s] = s"
| "join_comma (s # t # ss) = s @ '','' @ join_comma (t # ss)"

text \<open>
  \<^verbatim>\<open>ToString\<close>, as a template literal applies it. An array is joined with commas, its
  \<^verbatim>\<open>null\<close> and \<^verbatim>\<open>undefined\<close> elements giving the empty string. An object inherits
  \<^verbatim>\<open>Object.prototype.toString\<close>, unless it has an own property \<^verbatim>\<open>toString\<close>: that one
  is a JSON value, hence not callable, and the conversion throws a \<^verbatim>\<open>TypeError\<close>
  (\<^verbatim>\<open>valueOf\<close> returns no primitive).
\<close>

fun to_string :: "jsval \<Rightarrow> error + string"
  and elem_strings :: "jsval list \<Rightarrow> error + string list" where
  "to_string JUndefined = Inr ''undefined''"
| "to_string JNull = Inr ''null''"
| "to_string (JBool b) = Inr (if b then ''true'' else ''false'')"
| "to_string (JNum n) = Inr (show_int n)"
| "to_string (JStr s) = Inr s"
| "to_string (JArr xs) =
     (case elem_strings xs of Inl e \<Rightarrow> Inl e | Inr ss \<Rightarrow> Inr (join_comma ss))"
| "to_string (JObj kvs) =
     (if map_of kvs ''toString'' = None then Inr ''[object Object]'' else Inl TypeError)"
| "elem_strings [] = Inr []"
| "elem_strings (x # xs) =
     (case (if x = JUndefined \<or> x = JNull then Inr [] else to_string x) of
        Inl e \<Rightarrow> Inl e
      | Inr s \<Rightarrow> (case elem_strings xs of Inl e \<Rightarrow> Inl e | Inr ss \<Rightarrow> Inr (s # ss)))"

text \<open>
  \<^verbatim>\<open>ToNumber\<close>. The conversion of a string to a number (\<^verbatim>\<open>StringToNumber\<close>) is a
  parameter: the service's results are stated for every such function.
\<close>

fun to_number :: "(string \<Rightarrow> jsnum) \<Rightarrow> jsval \<Rightarrow> error + jsnum" where
  "to_number stn JUndefined = Inr NaN"
| "to_number stn JNull = Inr (Fin 0)"
| "to_number stn (JBool b) = Inr (Fin (if b then 1 else 0))"
| "to_number stn (JNum n) = Inr (Fin n)"
| "to_number stn (JStr s) = Inr (stn s)"
| "to_number stn (JArr xs) =
     (case to_string (JArr xs) of Inl e \<Rightarrow> Inl e | Inr s \<Rightarrow> Inr (stn s))"
| "to_number stn (JObj kvs) =
     (case to_string (JObj kvs) of Inl e \<Rightarrow> Inl e | Inr s \<Rightarrow> Inr (stn s))"

fun num_add :: "jsnum \<Rightarrow> jsnum \<Rightarrow> jsnum" where
  "num_add (Fin a) (Fin b) = Fin (a + b)"
| "num_add x y = NaN"

fun num_sub :: "jsnum \<Rightarrow> jsnum \<Rightarrow> jsnum" where
  "num_sub (Fin a) (Fin b) = Fin (a - b)"
| "num_sub x y = NaN"

fun num_mul :: "jsnum \<Rightarrow> jsnum \<Rightarrow> jsnum" where
  "num_mul (Fin a) (Fin b) = Fin (a * b)"
| "num_mul x y = NaN"

text \<open>\<^verbatim>\<open>a < b\<close> on numbers: false as soon as one side is \<^verbatim>\<open>NaN\<close>.\<close>

fun num_lt :: "jsnum \<Rightarrow> jsnum \<Rightarrow> bool" where
  "num_lt (Fin a) (Fin b) = (a < b)"
| "num_lt x y = False"

subsection \<open>String methods\<close>

definition code_unit :: "char \<Rightarrow> nat" where
  "code_unit c = of_char c"

text \<open>\<^verbatim>\<open>String.prototype.toLowerCase\<close> on the Latin-1 range.\<close>

definition lower_char :: "char \<Rightarrow> char" where
  "lower_char c =
     (let n = code_unit c in
      if (65 \<le> n \<and> n \<le> 90) \<or> (192 \<le> n \<and> n \<le> 222 \<and> n \<noteq> 215)
      then char_of (n + 32) else c)"

definition toLowerCase :: "string \<Rightarrow> string" where
  "toLowerCase s = map lower_char s"

text \<open>\<^verbatim>\<open>s.includes(w)\<close>: \<open>w\<close> occurs in \<open>s\<close> as a contiguous substring.\<close>

fun str_includes :: "string \<Rightarrow> string \<Rightarrow> bool" where
  "str_includes [] w = (w = [])"
| "str_includes (c # cs) w = (prefix w (c # cs) \<or> str_includes cs w)"

text \<open>\<^verbatim>\<open>String.prototype.trim\<close>: white space and line terminators of the Latin-1 range.\<close>

definition is_space :: "char \<Rightarrow> bool" where
  "is_space c = (let n = code_unit c in (9 \<le> n \<and> n \<le> 13) \<or> n = 32 \<or> n = 160)"

definition trim :: "string \<Rightarrow> string" where
  "trim s = rev (dropWhile is_space (rev (dropWhile is_space s)))"

definition is_digit :: "char \<Rightarrow> bool" where
  "is_digit c = (let n = code_unit c in 48 \<le> n \<and> n \<le> 57)"

text \<open>
  \<^verbatim>\<open>parseInt\<close> on the strings the service passes to it: a captured \<^verbatim>\<open>\d+\<close> group or
  the literal \<^verbatim>\<open>'0'\<close>, so the leading run of decimal digits is the whole string.
\<close>

definition parseInt :: "string \<Rightarrow> nat" where
  "parseInt s = foldl (\<lambda>n c. 10 * n + (code_unit c - 48)) 0 (takeWhile is_digit s)"

text \<open>\<^verbatim>\<open>encodeURIComponent\<close>: unreserved characters stay, the others become the
  percent-escaped bytes of their UTF-8 encoding.\<close>

definition hex_char :: "nat \<Rightarrow> char" where
  "hex_char d = (if d < 10 then char_of (48 + d) else char_of (55 + d))"

definition percent :: "nat \<Rightarrow> string" where
  "percent b = [CHR ''%'', hex_char (b div 16), hex_char (b mod 16)]"

definition is_word_char :: "char \<Rightarrow> bool" where
  "is_word_char c =
     (let n = code_unit c in
      (97 \<le> n \<and> n \<le> 122) \<or> (65 \<le> n \<and> n \<le> 90) \<or> (48 \<le> n \<and> n \<le> 57) \<or> c = CHR ''_'')"

definition uri_unreserved :: "char \<Rightarrow> bool" where
  "uri_unreserved c = (is_word_char c \<or> c \<in> set ''-.!~*'' \<or> c = CHR 0x27 \<or> c \<in> set ''()'')"

definition encode_char :: "char \<Rightarrow> string" where
  "encode_char c =
     (let n = code_unit c in
      if uri_unreserved c then [c]
      else if n < 128 then percent n
      else percent (192 + n div 64) @ percent (128 + n mod 64))"

definition encodeURIComponent :: "string \<Rightarrow> string" where
  "encodeURIComponent s = concat (map encode_char s)"

section \<open>The environment and the state of the process\<close>

text \<open>
  A network request is the credential exchange (\<^verbatim>\<open>POST id.twitch.tv/oauth2/token\<close> with
  its form body) or a read of the Helix API (\<^verbatim>\<open>GET api.twitch.tv\<close> with its path, its
  \<^verbatim>\<open>Authorization\<close> header and its \<^verbatim>\<open>Client-Id\<close> header). A request the process has
  issued ends in one of four ways: the \<^verbatim>\<open>error\<close> event of the request fires; the body
  arrives and \<^verbatim>\<open>JSON.parse\<close> throws on it; the body arrives and parses to a value; or
  neither \<^verbatim>\<open>error\<close> nor \<^verbatim>\<open>end\<close> ever fires (the upstream stalls, or the body is cut
  short), and then the promise is never settled, the code setting no timeout. The HTTP
  status is never read.
\<close>

datatype request =
    TokenPost string
  | ApiGet string string string

datatype outcome = ReqError | Unparseable | Parsed jsval | Unsettled

text \<open>
  The environment: the two configured secrets, the successive readings of \<^verbatim>\<open>Date.now()\<close>,
  the outcome of the \<open>n\<close>-th request the process issues, and \<^verbatim>\<open>StringToNumber\<close>.
\<close>

record world =
  TWITCH_CLIENT_ID :: string
  TWITCH_CLIENT_SECRET :: string
  clock :: "nat \<Rightarrow> int"
  reply :: "nat \<Rightarrow> request \<Rightarrow> outcome"
  StringToNumber :: "string \<Rightarrow> jsnum"

text \<open>
  The process state: the two module variables of lines 10--11, the number of clock
  readings taken and the requests issued so far, oldest first.
\<close>

record state =
  twitchToken :: jsval
  tokenExpiry :: jsnum
  ticks :: nat
  sent :: "request list"

definition initial_state :: state where
  "initial_state = \<lparr>twitchToken = JNull, tokenExpiry = Fin 0, ticks = 0, sent = []\<rparr>"

definition Date_now :: "world \<Rightarrow> state \<Rightarrow> int \<times> state" where
  "Date_now w s = (clock w (ticks s), s\<lparr>ticks := Suc (ticks s)\<rparr>)"

section \<open>Token cache: \<^verbatim>\<open>getTwitchToken\<close> (lines 14--55)\<close>

definition postData :: "world \<Rightarrow> string" where
  "postData w = ''client_id='' @ TWITCH_CLIENT_ID w @ ''&client_secret='' @ TWITCH_CLIENT_SECRET w
                @ ''&grant_type=client_credentials''"

text \<open>Line 15: \<^verbatim>\<open>twitchToken && Date.now() < tokenExpiry\<close>; the clock is read only when
  the token is truthy.\<close>

definition token_fresh :: "world \<Rightarrow> state \<Rightarrow> bool \<times> state" where
  "token_fresh w s =
     (if truthy (twitchToken s)
      then (case Date_now w s of (t, s1) \<Rightarrow> (num_lt (Fin t) (tokenExpiry s1), s1))
      else (False, s))"

text \<open>
  The function has no \<^verbatim>\<open>await\<close>: a call runs lines 15--53 without interruption and
  returns a promise; lines 39--48 (or the \<^verbatim>\<open>error\<close> handler of line 51) run later, when
  the request completes. \<open>getTwitchToken_call\<close> is the first part: it answers from
  the cache, throws, or issues the request and is left awaiting it.
\<close>

datatype token_step = Cached jsval | Awaiting nat request

definition getTwitchToken_call :: "world \<Rightarrow> state \<Rightarrow> (error + token_step) \<times> state" where
  "getTwitchToken_call w s =
     (case token_fresh w s of (fresh, s1) \<Rightarrow>
        if fresh then (Inr (Cached (twitchToken s1)), s1)
        else if TWITCH_CLIENT_ID w = [] \<or> TWITCH_CLIENT_SECRET w = [] then (Inl ConfigError, s1)
        else (Inr (Awaiting (length (sent s1)) (TokenPost (postData w))),
              s1\<lparr>sent := sent s1 @ [TokenPost (postData w)]\<rparr>))"

text \<open>
  The result of an asynchronous function, as its caller sees it after \<^verbatim>\<open>await\<close>: \<open>None\<close>
  when the promise is never settled, \<open>Some (Inl e)\<close> when it is rejected with \<open>e\<close>,
  \<open>Some (Inr v)\<close> when it is fulfilled with \<open>v\<close>.
\<close>

type_synonym 'a awaited = "(error + 'a) option"

text \<open>The second part: the completion of the request (lines 39--48 and 51). When the
  request never completes, neither callback runs.\<close>

definition getTwitchToken_settle :: "world \<Rightarrow> outcome \<Rightarrow> state \<Rightarrow> jsval awaited \<times> state" where
  "getTwitchToken_settle w out s =
     (case out of
        Unsettled \<Rightarrow> (None, s)
      | ReqError \<Rightarrow> (Some (Inl TransportError), s)
      | Unparseable \<Rightarrow> (Some (Inl SyntaxError), s)
      | Parsed response \<Rightarrow>
          (case get_prop response ''access_token'' of
             Inl e \<Rightarrow> (Some (Inl e), s)
           | Inr tok \<Rightarrow>
               (case Date_now w (s\<lparr>twitchToken := tok\<rparr>) of (t, s1) \<Rightarrow>
                  (case ebind (get_prop response ''expires_in'') (to_number (StringToNumber w)) of
                     Inl e \<Rightarrow> (Some (Inl e), s1)
                   | Inr n \<Rightarrow>
                       (Some (Inr tok),
                        s1\<lparr>tokenExpiry :=
                             num_sub (num_add (Fin t) (num_mul n (Fin 1000))) (Fin 60000)\<rparr>)))))"

text \<open>What the caller of \<^verbatim>\<open>getTwitchToken\<close> receives once the promise is settled, in the
  state \<open>s\<close> the process is in at that moment: a call that awaits a request receives
  the result of that very request.\<close>

definition token_result :: "world \<Rightarrow> error + token_step \<Rightarrow> state \<Rightarrow> jsval awaited \<times> state" where
  "token_result w step s =
     (case step of
        Inl e \<Rightarrow> (Some (Inl e), s)
      | Inr (Cached tok) \<Rightarrow> (Some (Inr tok), s)
      | Inr (Awaiting n r) \<Rightarrow> getTwitchToken_settle w (reply w n r) s)"

text \<open>A call that nothing interleaves with: the request is awaited at once.\<close>

definition getTwitchToken :: "world \<Rightarrow> state \<Rightarrow> jsval awaited \<times> state" where
  "getTwitchToken w s = (case getTwitchToken_call w s of (step, s1) \<Rightarrow> token_result w step s1)"

text \<open>
  Two calls made before either request has completed, as two requests arriving together
  make them: the first parts of both run one after the other, and only then do the
  responses arrive.
\<close>

definition two_concurrent_calls ::
  "world \<Rightarrow> state \<Rightarrow> (error + token_step) \<times> (error + token_step) \<times> state" where
  "two_concurrent_calls w s =
     (case getTwitchToken_call w s of (first, s1) \<Rightarrow>
        (case getTwitchToken_call w s1 of (second, s2) \<Rightarrow> (first, second, s2)))"

text \<open>The cached token is expired at the \<open>k\<close>-th reading of the clock.\<close>

definition expired_at :: "world \<Rightarrow> state \<Rightarrow> nat \<Rightarrow> bool" where
  "expired_at w s k = (\<not> num_lt (Fin (clock w k)) (tokenExpiry s))"

section \<open>Upstream client (lines 57--128)\<close>

definition send :: "world \<Rightarrow> request \<Rightarrow> state \<Rightarrow> outcome \<times> state" where
  "send w r s = (reply w (length (sent s)) r, s\<lparr>sent := sent s @ [r]\<rparr>)"

text \<open>
  \<^verbatim>\<open>https.request\<close> refuses, by throwing before anything is sent, a path with a
  character outside \<^verbatim>\<open>\u0021-\u00ff\<close> and a header value with a character outside
  \<^verbatim>\<open>\t\x20-\x7e\x80-\xff\<close>. The path and the headers of the credential exchange are
  constants that pass; those of an API read depend on upstream data and on the
  environment.
\<close>

definition path_accepted :: "string \<Rightarrow> bool" where
  "path_accepted path = list_all (\<lambda>c. 33 \<le> code_unit c) path"

definition header_accepted :: "string \<Rightarrow> bool" where
  "header_accepted v =
     list_all (\<lambda>c. code_unit c = 9 \<or> (32 \<le> code_unit c \<and> code_unit c \<noteq> 127)) v"

definition makeApiRequest :: "world \<Rightarrow> string \<Rightarrow> state \<Rightarrow> jsval awaited \<times> state" where
  "makeApiRequest w path s =
     (case getTwitchToken w s of
        (None, s1) \<Rightarrow> (None, s1)
      | (Some (Inl e), s1) \<Rightarrow> (Some (Inl e), s1)
      | (Some (Inr token), s1) \<Rightarrow>
          (case to_string token of
             Inl e \<Rightarrow> (Some (Inl e), s1)
           | Inr bearer \<Rightarrow>
               if \<not> path_accepted path \<or> \<not> header_accepted (''Bearer '' @ bearer) \<or>
                  \<not> header_accepted (TWITCH_CLIENT_ID w)
               then (Some (Inl TypeError), s1)
               else
                 (case send w (ApiGet path (''Bearer '' @ bearer) (TWITCH_CLIENT_ID w)) s1 of
                    (Unsettled, s2) \<Rightarrow> (None, s2)
                  | (ReqError, s2) \<Rightarrow> (Some (Inl TransportError), s2)
                  | (Unparseable, s2) \<Rightarrow> (Some (Inl SyntaxError), s2)
                  | (Parsed response, s2) \<Rightarrow> (Some (Inr response), s2))))"

text \<open>\<^verbatim>\<open>response.data[0] || null\<close>.\<close>

definition first_or_null :: "jsval \<Rightarrow> error + jsval" where
  "first_or_null response =
     ebind (get_prop response ''data'') (\<lambda>d. ebind (index0 d) (\<lambda>x. Inr (or_else x JNull)))"

text \<open>The body of a lookup inside its \<^verbatim>\<open>try\<close>; the \<^verbatim>\<open>catch\<close> turns every exception into
  the default. A lookup whose request is never settled never returns.\<close>

definition catch_to :: "jsval \<Rightarrow> jsval awaited \<times> state \<Rightarrow> jsval option \<times> state" where
  "catch_to dflt r =
     (case r of
        (None, s) \<Rightarrow> (None, s)
      | (Some (Inl e), s) \<Rightarrow> (Some dflt, s)
      | (Some (Inr v), s) \<Rightarrow> (Some v, s))"

definition lookup_first :: "world \<Rightarrow> string \<Rightarrow> state \<Rightarrow> jsval awaited \<times> state" where
  "lookup_first w path s =
     (case makeApiRequest w path s of
        (None, s1) \<Rightarrow> (None, s1)
      | (Some (Inl e), s1) \<Rightarrow> (Some (Inl e), s1)
      | (Some (Inr response), s1) \<Rightarrow> (Some (first_or_null response), s1))"

definition getTwitchUser :: "world \<Rightarrow> string \<Rightarrow> state \<Rightarrow> jsval option \<times> state" where
  "getTwitchUser w username s =
     catch_to JNull (lookup_first w (''/helix/users?login='' @ encodeURIComponent username) s)"

definition getCurrentStream :: "world \<Rightarrow> jsval \<Rightarrow> state \<Rightarrow> jsval option \<times> state" where
  "getCurrentStream w userId s =
     catch_to JNull
       (case to_string userId of
          Inl e \<Rightarrow> (Some (Inl e), s)
        | Inr u \<Rightarrow> lookup_first w (''/helix/streams?user_id='' @ u) s)"

definition getChannelInfo :: "world \<Rightarrow> jsval \<Rightarrow> state \<Rightarrow> jsval option \<times> state" where
  "getChannelInfo w userId s =
     catch_to JNull
       (case to_string userId of
          Inl e \<Rightarrow> (Some (Inl e), s)
        | Inr u \<Rightarrow> lookup_first w (''/helix/channels?broadcaster_id='' @ u) s)"

definition getRecentVideos :: "world \<Rightarrow> jsval \<Rightarrow> state \<Rightarrow> jsval option \<times> state" where
  "getRecentVideos w userId s =
     catch_to (JArr [])
       (case to_string userId of
          Inl e \<Rightarrow> (Some (Inl e), s)
        | Inr u \<Rightarrow>
            (case makeApiRequest w (''/helix/videos?user_id='' @ u @ ''&first=10&type=archive'') s of
               (None, s1) \<Rightarrow> (None, s1)
             | (Some (Inl e), s1) \<Rightarrow> (Some (Inl e), s1)
             | (Some (Inr response), s1) \<Rightarrow>
                 (Some (ebind (get_prop response ''data'') (\<lambda>d. Inr (or_else d (JArr [])))), s1)))"

section \<open>Category resolver: \<^verbatim>\<open>getLastPlayedGame\<close> (lines 142--191)\<close>

text \<open>
  Lines 146 and 152: \<^verbatim>\<open>x && x.game_name && x.game_name !== 'Just Chatting'\<close>, and the
  value returned when the test succeeds. The property is read only on a truthy value,
  where reading cannot throw.
\<close>

definition named_game :: "jsval \<Rightarrow> jsval option" where
  "named_game x =
     (if truthy x
      then (case get_prop x ''game_name'' of
              Inl e \<Rightarrow> None
            | Inr g \<Rightarrow> if truthy g \<and> g \<noteq> JStr ''Just Chatting'' then Some g else None)
      else None)"

subsection \<open>The duration pattern of line 161\<close>

text \<open>
  \<^verbatim>\<open>/PT(?:(\d+)H)?(?:(\d+)M)?(?:(\d+)S)?/\<close> is not anchored. It matches at the leftmost
  \<^verbatim>\<open>PT\<close> of the string, and there each optional group takes part exactly when a
  non-empty run of digits is followed by its letter.
\<close>

fun after_PT :: "string \<Rightarrow> string option" where
  "after_PT [] = None"
| "after_PT [c] = None"
| "after_PT (a # b # cs) =
     (if a = CHR ''P'' \<and> b = CHR ''T'' then Some cs else after_PT (b # cs))"

definition opt_group :: "char \<Rightarrow> string \<Rightarrow> string option \<times> string" where
  "opt_group letter s =
     (let ds = takeWhile is_digit s; rest = dropWhile is_digit s
      in if ds \<noteq> [] \<and> rest \<noteq> [] \<and> hd rest = letter then (Some ds, tl rest) else (None, s))"

text \<open>The three captured groups of the match, or \<open>None\<close> when \<^verbatim>\<open>match\<close> returns
  \<^verbatim>\<open>null\<close>.\<close>

definition durationMatch :: "string \<Rightarrow> (string option \<times> string option \<times> string option) option" where
  "durationMatch d =
     (case after_PT d of
        None \<Rightarrow> None
      | Some r \<Rightarrow>
          (case opt_group (CHR ''H'') r of (h, r1) \<Rightarrow>
             (case opt_group (CHR ''M'') r1 of (m, r2) \<Rightarrow>
                (case opt_group (CHR ''S'') r2 of (sec, r3) \<Rightarrow> Some (h, m, sec)))))"

text \<open>\<^verbatim>\<open>parseInt(group || '0')\<close>.\<close>

definition group_or_zero :: "string option \<Rightarrow> nat" where
  "group_or_zero g = parseInt (case g of None \<Rightarrow> ''0'' | Some ds \<Rightarrow> if ds = [] then ''0'' else ds)"

text \<open>Line 165: \<^verbatim>\<open>hours * 60 + minutes\<close>; the third group is not read.\<close>

definition totalMinutes :: "string option \<times> string option \<times> string option \<Rightarrow> nat" where
  "totalMinutes g = (case g of (h, m, sec) \<Rightarrow> group_or_zero h * 60 + group_or_zero m)"

definition skipWords :: "string list" where
  "skipWords = [''react'', ''irl'', ''chat'', ''talk'', ''podcast'', ''interview'', ''music'']"

definition hasSkipWord :: "string \<Rightarrow> bool" where
  "hasSkipWord title = list_ex (\<lambda>word. str_includes title word) skipWords"

text \<open>Calling a string method on a value: anything but a string has no such method (or,
  for \<^verbatim>\<open>null\<close> and \<^verbatim>\<open>undefined\<close>, no properties at all), and the call throws.\<close>

definition as_string :: "jsval \<Rightarrow> error + string" where
  "as_string v = (case v of JStr s \<Rightarrow> Inr s | _ \<Rightarrow> Inl TypeError)"

text \<open>
  The body of the loop of lines 158--184 for one record: \<open>Inr True\<close> when it executes
  \<^verbatim>\<open>return "games"\<close>, \<open>Inr False\<close> when it falls through to the next record, \<open>Inl\<close>
  when it throws.
\<close>

definition video_is_game :: "jsval \<Rightarrow> error + bool" where
  "video_is_game video =
     ebind (get_prop video ''type'') (\<lambda>ty.
       if ty \<noteq> JStr ''archive'' then Inr False
       else ebind (get_prop video ''duration'') (\<lambda>d.
         if \<not> truthy d then Inr False
         else ebind (as_string d) (\<lambda>dur.
           (case durationMatch dur of
              None \<Rightarrow> Inr False
            | Some groups \<Rightarrow>
                if totalMinutes groups > 30
                then ebind (ebind (get_prop video ''title'') as_string) (\<lambda>t.
                       if \<not> hasSkipWord (toLowerCase t) then Inr True else Inr False)
                else Inr False))))"

fun scan_videos :: "jsval list \<Rightarrow> error + jsval" where
  "scan_videos [] = Inr JNull"
| "scan_videos (video # rest) =
     (case video_is_game video of
        Inl e \<Rightarrow> Inl e
      | Inr True \<Rightarrow> Inr (JStr ''games'')
      | Inr False \<Rightarrow> scan_videos rest)"

text \<open>The \<^verbatim>\<open>catch\<close> of line 187 returns \<^verbatim>\<open>null\<close>. The three lookups are awaited one after
  the other; the resolver returns only if each lookup it makes returns.\<close>

definition getLastPlayedGame :: "world \<Rightarrow> jsval \<Rightarrow> state \<Rightarrow> jsval option \<times> state" where
  "getLastPlayedGame w userId s =
     (case getCurrentStream w userId s of
        (None, s1) \<Rightarrow> (None, s1)
      | (Some stream, s1) \<Rightarrow>
          (case named_game stream of
             Some g \<Rightarrow> (Some g, s1)
           | None \<Rightarrow>
               (case getChannelInfo w userId s1 of
                  (None, s2) \<Rightarrow> (None, s2)
                | (Some channelInfo, s2) \<Rightarrow>
                    (case named_game channelInfo of
                       Some g \<Rightarrow> (Some g, s2)
                     | None \<Rightarrow>
                         (case getRecentVideos w userId s2 of
                            (None, s3) \<Rightarrow> (None, s3)
                          | (Some videos, s3) \<Rightarrow>
                              (case ebind (iterate videos) scan_videos of
                                 Inl e \<Rightarrow> (Some JNull, s3)
                               | Inr r \<Rightarrow> (Some r, s3)))))))"

section \<open>The shoutout route (lines 194--242)\<close>

definition valid_username :: "string \<Rightarrow> bool" where
  "valid_username u = (4 \<le> length u \<and> length u \<le> 25 \<and> list_all is_word_char u)"

text \<open>Lines 198--201: trim, then drop one leading \<^verbatim>\<open>@\<close>.\<close>

definition clean_username :: "string \<Rightarrow> string" where
  "clean_username user =
     (case trim user of [] \<Rightarrow> [] | c # cs \<Rightarrow> if c = CHR ''@'' then cs else c # cs)"

definition channel_url :: "string \<Rightarrow> string" where
  "channel_url username = ''https://twitch.tv/'' @ username"

definition msg_missing :: string where
  "msg_missing = ''Please provide a username with ?user=USERNAME''"

definition msg_invalid :: string where
  "msg_invalid = ''Invalid username format. Twitch usernames must be 4-25 characters and contain only letters, numbers, and underscores.''"

definition msg_not_found :: "string \<Rightarrow> string" where
  "msg_not_found username =
     ''User '' @ [CHR 0x22] @ username @ [CHR 0x22] @ '' not found on Twitch. Please check the username and try again.''"

definition msg_specific :: "string \<Rightarrow> string \<Rightarrow> string" where
  "msg_specific username game =
     ''Check out '' @ username @ '', they are playing '' @ game @ '' at '' @ channel_url username @ ''!''"

definition msg_generic :: "string \<Rightarrow> string" where
  "msg_generic username =
     ''Check out '' @ username @ '', great gaming content at '' @ channel_url username @ ''!''"

definition msg_plain :: "string \<Rightarrow> string" where
  "msg_plain username = ''Check out '' @ username @ '' at '' @ channel_url username @ ''!''"

text \<open>Lines 223--233: the message for the resolver's result; the template literal of
  line 226 converts the value to a string and may throw.\<close>

definition compose :: "string \<Rightarrow> jsval \<Rightarrow> error + string" where
  "compose username game =
     (if truthy game \<and> game \<noteq> JStr ''games''
      then ebind (to_string game) (\<lambda>g. Inr (msg_specific username g))
      else if game = JStr ''games'' then Inr (msg_generic username)
      else Inr (msg_plain username))"

text \<open>The \<^verbatim>\<open>try\<close> block of lines 212--236.\<close>

definition shoutout_body :: "world \<Rightarrow> string \<Rightarrow> state \<Rightarrow> string awaited \<times> state" where
  "shoutout_body w username s =
     (case getTwitchUser w username s of
        (None, s1) \<Rightarrow> (None, s1)
      | (Some user, s1) \<Rightarrow>
          if \<not> truthy user then (Some (Inr (msg_not_found username)), s1)
          else (case get_prop user ''id'' of
                  Inl e \<Rightarrow> (Some (Inl e), s1)
                | Inr uid \<Rightarrow>
                    (case getLastPlayedGame w uid s1 of
                       (None, s2) \<Rightarrow> (None, s2)
                     | (Some game, s2) \<Rightarrow> (Some (compose username game), s2))))"

text \<open>The route handler: the text it sends for the query parameter \<^verbatim>\<open>user\<close>, a string
  (the empty string when the parameter is absent), and the state it leaves; \<open>None\<close>
  when it never sends anything, a lookup being left unsettled.\<close>

definition resolveShoutout :: "world \<Rightarrow> string \<Rightarrow> state \<Rightarrow> string option \<times> state" where
  "resolveShoutout w user s =
     (let username = clean_username user
      in if username = [] then (Some msg_missing, s)
         else if \<not> valid_username username then (Some msg_invalid, s)
         else (case shoutout_body w username s of
                 (None, s1) \<Rightarrow> (None, s1)
               | (Some (Inl e), s1) \<Rightarrow> (Some (msg_plain username), s1)
               | (Some (Inr message), s1) \<Rightarrow> (Some message, s1)))"

text \<open>
  The three shapes a consumer reads off the resolver's return value, as the branches of
  lines 224--233 do: the string \<^verbatim>\<open>"games"\<close> is the generic signal, any other truthy
  value names a category, a falsy value is no result.
\<close>

datatype resolved = Specific jsval | Generic | Unknown

definition resolved_as :: "jsval \<Rightarrow> resolved" where
  "resolved_as game =
     (if truthy game \<and> game \<noteq> JStr ''games'' then Specific game
      else if game = JStr ''games'' then Generic
      else Unknown)"

text \<open>
  The state of the process after it has served a history of requests to the route, one
  after the other. A request is followed from its arrival to its answer; requests served
  at the same time share only the token cache, whose two accesses are
  \<open>getTwitchToken_call\<close> and \<open>getTwitchToken_settle\<close>.
\<close>

fun after_requests :: "world \<Rightarrow> string list \<Rightarrow> state \<Rightarrow> state" where
  "after_requests w [] s = s"
| "after_requests w (user # users) s = after_requests w users (snd (resolveShoutout w user s))"

section \<open>Title sniffing in the variant \<^verbatim>\<open>src/unnamed/part_000\<close> (lines 235--249)\<close>

definition commonGames :: "string list" where
  "commonGames =
     [''Valorant'', ''League of Legends'', ''Fortnite'', ''Minecraft'', ''Among Us'',
      ''Call of Duty'', ''Apex Legends'', ''Counter-Strike'', ''Overwatch'',
      ''World of Warcraft'', ''Rocket League'', ''Fall Guys'', ''GTA'', ''Dead by Daylight'',
      ''Escape from Tarkov'']"

text \<open>The loop of lines 242--247 over the allowlist, \<^verbatim>\<open>game\<close> being \<^verbatim>\<open>null\<close> before it.\<close>

fun match_game :: "string \<Rightarrow> string list \<Rightarrow> jsval" where
  "match_game title [] = JNull"
| "match_game title (gameCheck # rest) =
     (if str_includes (toLowerCase title) (toLowerCase gameCheck) then JStr gameCheck
      else match_game title rest)"

text \<open>
  Lines 236--249, from the value \<^verbatim>\<open>getRecentVideos\<close> returned to the value of
  \<^verbatim>\<open>game\<close>: only the first record is looked at, and an exception leaves the handler's
  \<^verbatim>\<open>try\<close> block.
\<close>

definition sniff_recent_game :: "(string \<Rightarrow> jsnum) \<Rightarrow> jsval \<Rightarrow> error + jsval" where
  "sniff_recent_game stn videos =
     ebind (get_prop videos ''length'') (\<lambda>len.
       ebind (to_number stn len) (\<lambda>n.
         if num_lt (Fin 0) n
         then ebind (index0 videos) (\<lambda>recentVideo.
                ebind (get_prop recentVideo ''title'') (\<lambda>title.
                  if truthy title
                  then ebind (as_string title) (\<lambda>t. Inr (match_game t commonGames))
                  else Inr JNull))
         else Inr JNull))"

section \<open>Classifying the requests of the log\<close>

definition is_token_exchange :: "request \<Rightarrow> bool" where
  "is_token_exchange r = (case r of TokenPost body \<Rightarrow> True | ApiGet path auth cid \<Rightarrow> False)"

definition is_lookup :: "string \<Rightarrow> request \<Rightarrow> bool" where
  "is_lookup resource r =
     (case r of TokenPost body \<Rightarrow> False | ApiGet path auth cid \<Rightarrow> prefix resource path)"

definition is_stream_lookup :: "request \<Rightarrow> bool" where
  "is_stream_lookup = is_lookup ''/helix/streams''"

definition is_channel_info_lookup :: "request \<Rightarrow> bool" where
  "is_channel_info_lookup = is_lookup ''/helix/channels''"

definition is_archive_lookup :: "request \<Rightarrow> bool" where
  "is_archive_lookup = is_lookup ''/helix/videos''"

section \<open>Concrete environments\<close>

text \<open>Credentials configured, every request ends in a transport error.\<close>

definition world_down :: world where
  "world_down =
     \<lparr>TWITCH_CLIENT_ID = ''abc'', TWITCH_CLIENT_SECRET = ''xyz'', clock = (\<lambda>n. 1000),
      reply = (\<lambda>n r. ReqError), StringToNumber = (\<lambda>s. NaN)\<rparr>"

text \<open>Credentials configured, no request is ever answered.\<close>

definition world_stalled :: world where
  "world_stalled =
     \<lparr>TWITCH_CLIENT_ID = ''abc'', TWITCH_CLIENT_SECRET = ''xyz'', clock = (\<lambda>n. 1000),
      reply = (\<lambda>n r. Unsettled), StringToNumber = (\<lambda>s. NaN)\<rparr>"

text \<open>No credentials in the process environment.\<close>

definition world_unconfigured :: world where
  "world_unconfigured =
     \<lparr>TWITCH_CLIENT_ID = [], TWITCH_CLIENT_SECRET = [], clock = (\<lambda>n. 1000),
      reply = (\<lambda>n r. ReqError), StringToNumber = (\<lambda>s. NaN)\<rparr>"

text \<open>A healthy platform on which every login exists with id 42 and is live, the
  snapshot's \<^verbatim>\<open>game_name\<close> being the given value; channel and video reads fail.\<close>

definition helix_reply :: "jsval \<Rightarrow> request \<Rightarrow> outcome" where
  "helix_reply category r =
     (case r of
        TokenPost body \<Rightarrow>
          Parsed (JObj [(''access_token'', JStr ''tok''), (''expires_in'', JNum 3600),
                        (''token_type'', JStr ''bearer'')])
      | ApiGet path auth cid \<Rightarrow>
          if prefix ''/helix/users'' path
          then Parsed (JObj [(''data'', JArr [JObj [(''id'', JStr ''42'')]])])
          else if prefix ''/helix/streams'' path
          then Parsed (JObj [(''data'', JArr [JObj [(''game_name'', category),
                                                    (''title'', JStr ''ranked'')]])])
          else ReqError)"

definition world_streaming :: "jsval \<Rightarrow> world" where
  "world_streaming category =
     \<lparr>TWITCH_CLIENT_ID = ''abc'', TWITCH_CLIENT_SECRET = ''xyz'', clock = (\<lambda>n. 1000),
      reply = (\<lambda>n. helix_reply category), StringToNumber = (\<lambda>s. NaN)\<rparr>"

definition world_live :: "string \<Rightarrow> world" where
  "world_live category = world_streaming (JStr category)"

text \<open>The identity endpoint refuses the credentials: its answer is the JSON error body
  \<^verbatim>\<open>{"status":400,"message":"invalid client"}\<close>.\<close>

definition world_refused :: world where
  "world_refused =
     \<lparr>TWITCH_CLIENT_ID = ''abc'', TWITCH_CLIENT_SECRET = ''xyz'', clock = (\<lambda>n. 1000),
      reply = (\<lambda>n r. Parsed (JObj [(''status'', JNum 400), (''message'', JStr ''invalid client'')])),
      StringToNumber = (\<lambda>s. NaN)\<rparr>"

text \<open>A cache holding a token that expired long ago.\<close>

definition stale_state :: state where
  "stale_state = \<lparr>twitchToken = JStr ''old'', tokenExpiry = Fin 500, ticks = 0, sent = []\<rparr>"

text \<open>Archived broadcast records.\<close>

definition archive_video :: "string \<Rightarrow> string \<Rightarrow> jsval" where
  "archive_video title duration =
     JObj [(''title'', JStr title), (''duration'', JStr duration), (''type'', JStr ''archive'')]"

section \<open>Auxiliary facts\<close>

lemma token_fresh_frame:
  "token_fresh w s = (b, s1) \<Longrightarrow>
   sent s1 = sent s \<and> twitchToken s1 = twitchToken s \<and> tokenExpiry s1 = tokenExpiry s"
  by (auto simp: token_fresh_def Date_now_def split: if_splits)

lemma settle_sent: "getTwitchToken_settle w out s = (r, s1) \<Longrightarrow> sent s1 = sent s"
  by (auto simp: getTwitchToken_settle_def Date_now_def split: outcome.splits sum.splits)

lemma token_result_sent: "token_result w step s = (r, s1) \<Longrightarrow> sent s1 = sent s"
  by (auto simp: token_result_def split: sum.splits token_step.splits dest: settle_sent)

lemma call_sent:
  assumes "getTwitchToken_call w s = (r, s1)"
  shows "\<exists>new. sent s1 = sent s @ new \<and> list_all is_token_exchange new"
proof -
  obtain b s0 where f: "token_fresh w s = (b, s0)" by (cases "token_fresh w s")
  from token_fresh_frame [OF f] have s0: "sent s0 = sent s" by simp
  from assms f s0 have "sent s1 = sent s \<or> sent s1 = sent s @ [TokenPost (postData w)]"
    by (auto simp: getTwitchToken_call_def split: if_splits)
  then show ?thesis
  proof
    assume "sent s1 = sent s"
    then have "sent s1 = sent s @ [] \<and> list_all is_token_exchange []" by simp
    then show ?thesis by blast
  next
    assume "sent s1 = sent s @ [TokenPost (postData w)]"
    then have "sent s1 = sent s @ [TokenPost (postData w)] \<and>
        list_all is_token_exchange [TokenPost (postData w)]"
      by (simp add: is_token_exchange_def)
    then show ?thesis by blast
  qed
qed

lemma getTwitchToken_sent:
  assumes "getTwitchToken w s = (r, s1)"
  shows "\<exists>new. sent s1 = sent s @ new \<and> list_all is_token_exchange new"
proof -
  obtain c s0 where c: "getTwitchToken_call w s = (c, s0)" by (cases "getTwitchToken_call w s")
  from call_sent [OF c] obtain new where
    n: "sent s0 = sent s @ new" "list_all is_token_exchange new" by blast
  from assms c have "token_result w c s0 = (r, s1)" by (simp add: getTwitchToken_def)
  then have "sent s1 = sent s0" by (rule token_result_sent)
  with n show ?thesis by auto
qed

lemma makeApiRequest_sent:
  assumes "makeApiRequest w path s = (r, s1)"
  shows "\<exists>new. sent s1 = sent s @ new \<and>
           list_all (\<lambda>q. is_token_exchange q \<or> is_lookup path q) new"
proof -
  obtain t s0 where t: "getTwitchToken w s = (t, s0)" by (cases "getTwitchToken w s")
  from getTwitchToken_sent [OF t] obtain new where
    n: "sent s0 = sent s @ new" "list_all is_token_exchange new" by blast
  from n(2) have n': "list_all (\<lambda>q. is_token_exchange q \<or> is_lookup path q) new"
    by (simp add: list_all_iff)
  from assms t have "sent s1 = sent s0 \<or> (\<exists>a c. sent s1 = sent s0 @ [ApiGet path a c])"
    by (auto simp: makeApiRequest_def send_def
          split: option.splits sum.splits outcome.splits if_splits)
  then show ?thesis
  proof
    assume "sent s1 = sent s0"
    with n n' show ?thesis by auto
  next
    assume "\<exists>a c. sent s1 = sent s0 @ [ApiGet path a c]"
    then obtain a c where "sent s1 = sent s0 @ [ApiGet path a c]" by blast
    with n n' have "sent s1 = sent s @ (new @ [ApiGet path a c]) \<and>
        list_all (\<lambda>q. is_token_exchange q \<or> is_lookup path q) (new @ [ApiGet path a c])"
      by (simp add: is_lookup_def)
    then show ?thesis by blast
  qed
qed

lemma lookup_first_sent:
  "lookup_first w path s = (r, s1) \<Longrightarrow>
   \<exists>new. sent s1 = sent s @ new \<and> list_all (\<lambda>q. is_token_exchange q \<or> is_lookup path q) new"
  by (cases "makeApiRequest w path s")
     (auto simp: lookup_first_def split: option.splits sum.splits dest: makeApiRequest_sent)

lemma is_lookup_weaken: "prefix resource path \<Longrightarrow> is_lookup path q \<Longrightarrow> is_lookup resource q"
  by (auto simp: is_lookup_def split: request.splits)

lemma getCurrentStream_sent:
  assumes "getCurrentStream w userId s = (v, s1)"
  shows "\<exists>new. sent s1 = sent s @ new \<and>
           list_all (\<lambda>q. is_token_exchange q \<or> is_stream_lookup q) new"
proof (cases "to_string userId")
  case (Inl e)
  with assms have "sent s1 = sent s @ []" by (simp add: getCurrentStream_def catch_to_def)
  then show ?thesis by force
next
  case (Inr u)
  obtain r s0 where l: "lookup_first w (''/helix/streams?user_id='' @ u) s = (r, s0)"
    by (cases "lookup_first w (''/helix/streams?user_id='' @ u) s")
  from assms Inr l have "s1 = s0"
    by (auto simp: getCurrentStream_def catch_to_def split: option.splits sum.splits)
  moreover from lookup_first_sent [OF l] obtain new where
    n: "sent s0 = sent s @ new"
       "list_all (\<lambda>q. is_token_exchange q \<or> is_lookup (''/helix/streams?user_id='' @ u) q) new"
    by blast
  moreover have "\<And>q. is_lookup (''/helix/streams?user_id='' @ u) q \<Longrightarrow> is_stream_lookup q"
    unfolding is_stream_lookup_def by (rule is_lookup_weaken) simp_all
  ultimately have "sent s1 = sent s @ new \<and>
      list_all (\<lambda>q. is_token_exchange q \<or> is_stream_lookup q) new"
    by (auto simp: list_all_iff)
  then show ?thesis by blast
qed

lemma stream_lookup_is_no_other:
  "is_token_exchange q \<or> is_stream_lookup q \<Longrightarrow>
   \<not> is_channel_info_lookup q \<and> \<not> is_archive_lookup q"
  by (cases q)
     (auto simp: is_token_exchange_def is_stream_lookup_def is_channel_info_lookup_def
        is_archive_lookup_def is_lookup_def dest: prefix_same_cases)

lemma str_includes_sublist: "str_includes s w = sublist w s"
  by (induction s) (simp_all add: sublist_Cons_right)

lemma str_includes_middle: "str_includes (a @ w @ b) w"
  unfolding str_includes_sublist sublist_def by blast

lemma str_includes_set: "str_includes s w \<Longrightarrow> set w \<subseteq> set s"
  unfolding str_includes_sublist sublist_def by auto

lemma get_prop_total: "get_prop v k = Inr x \<Longrightarrow> \<exists>y. get_prop v k' = Inr y"
  by (cases v) simp_all

lemma video_is_game_short:
  assumes "get_prop v ''duration'' = Inr (JStr d)"
    and "durationMatch d = Some g"
    and "totalMinutes g \<le> 30"
  shows "video_is_game v = Inr False"
proof -
  from get_prop_total [OF assms(1)] obtain ty where "get_prop v ''type'' = Inr ty" by blast
  with assms show ?thesis
    by (simp add: video_is_game_def ebind_def as_string_def)
qed

lemma video_is_game_True:
  assumes "video_is_game v = Inr True"
  shows "\<exists>d g t. get_prop v ''type'' = Inr (JStr ''archive'') \<and>
           get_prop v ''duration'' = Inr (JStr d) \<and> durationMatch d = Some g \<and>
           30 < totalMinutes g \<and> get_prop v ''title'' = Inr (JStr t) \<and>
           \<not> hasSkipWord (toLowerCase t)"
proof -
  from assms obtain ty where ty: "get_prop v ''type'' = Inr ty"
    by (cases "get_prop v ''type''") (simp_all add: video_is_game_def ebind_def)
  with assms have arch: "ty = JStr ''archive''"
    by (auto simp: video_is_game_def ebind_def split: if_splits)
  from get_prop_total [OF ty] obtain x where x: "get_prop v ''duration'' = Inr x" by blast
  from assms ty arch x obtain d where d: "x = JStr d"
    by (cases x) (auto simp: video_is_game_def ebind_def as_string_def split: if_splits)
  from assms ty arch x d obtain g where g: "durationMatch d = Some g"
    by (cases "durationMatch d")
       (auto simp: video_is_game_def ebind_def as_string_def split: if_splits)
  from assms ty arch x d g have long: "30 < totalMinutes g"
    by (auto simp: video_is_game_def ebind_def as_string_def split: if_splits)
  from get_prop_total [OF ty] obtain y where y: "get_prop v ''title'' = Inr y" by blast
  from assms ty arch x d g long y obtain t where t: "y = JStr t"
    by (cases y) (auto simp: video_is_game_def ebind_def as_string_def split: if_splits)
  from assms ty arch x d g long y t have "\<not> hasSkipWord (toLowerCase t)"
    by (auto simp: video_is_game_def ebind_def as_string_def split: if_splits)
  with ty arch x d g long y t show ?thesis by blast
qed

lemma scan_videos_skip: "video_is_game v = Inr False \<Longrightarrow> scan_videos (v # rest) = scan_videos rest"
  by simp

lemma not_digit_letters:
  "\<not> is_digit (CHR ''H'')" "\<not> is_digit (CHR ''M'')" "\<not> is_digit (CHR ''S'')"
  by (simp_all add: is_digit_def code_unit_def)

lemma opt_group_digits:
  assumes "list_all is_digit ds" and "\<not> is_digit c"
  shows "opt_group l (ds @ c # r) =
           (if ds \<noteq> [] \<and> c = l then (Some ds, r) else (None, ds @ c # r))"
proof -
  from assms(1) have all: "\<And>x. x \<in> set ds \<Longrightarrow> is_digit x" by (simp add: list_all_iff)
  from assms(2) have "takeWhile is_digit (ds @ c # r) = ds"
    by (simp add: takeWhile_append2 [OF all])
  moreover from assms(2) have "dropWhile is_digit (ds @ c # r) = c # r"
    by (simp add: dropWhile_append2 [OF all])
  ultimately show ?thesis by (simp add: opt_group_def)
qed

lemma seconds_only_match:
  assumes "list_all is_digit ds" and "ds \<noteq> []"
  shows "durationMatch (''PT'' @ ds @ ''S'') = Some (None, None, Some ds)"
proof -
  have 1: "after_PT (''PT'' @ ds @ ''S'') = Some (ds @ ''S'')" by simp
  have 2: "opt_group (CHR ''H'') (ds @ ''S'') = (None, ds @ ''S'')"
    using opt_group_digits [OF assms(1) not_digit_letters(3), of "CHR ''H''" "[]"] by simp
  have 3: "opt_group (CHR ''M'') (ds @ ''S'') = (None, ds @ ''S'')"
    using opt_group_digits [OF assms(1) not_digit_letters(3), of "CHR ''M''" "[]"] by simp
  have 4: "opt_group (CHR ''S'') (ds @ ''S'') = (Some ds, [])"
    using opt_group_digits [OF assms(1) not_digit_letters(3), of "CHR ''S''" "[]"] assms(2)
    by simp
  from 2 3 4 show ?thesis by (simp add: durationMatch_def)
qed

lemma thirty_minutes_match:
  assumes "list_all is_digit ds" and "ds \<noteq> []"
  shows "durationMatch (''PT30M'' @ ds @ ''S'') = Some (None, Some ''30'', Some ds)"
proof -
  have d30: "list_all is_digit ''30''" by (simp add: is_digit_def code_unit_def)
  have 1: "after_PT (''PT30M'' @ ds @ ''S'') = Some (''30'' @ CHR ''M'' # (ds @ ''S''))" by simp
  have 2: "opt_group (CHR ''H'') (''30'' @ CHR ''M'' # (ds @ ''S'')) =
             (None, ''30'' @ CHR ''M'' # (ds @ ''S''))"
    using opt_group_digits [OF d30 not_digit_letters(2), of "CHR ''H''"] by simp
  have 3: "opt_group (CHR ''M'') (''30'' @ CHR ''M'' # (ds @ ''S'')) = (Some ''30'', ds @ ''S'')"
    using opt_group_digits [OF d30 not_digit_letters(2), of "CHR ''M''"] by simp
  have 4: "opt_group (CHR ''S'') (ds @ ''S'') = (Some ds, [])"
    using opt_group_digits [OF assms(1) not_digit_letters(3), of "CHR ''S''" "[]"] assms(2)
    by simp
  from 2 3 4 show ?thesis by (simp add: durationMatch_def)
qed

lemma group_or_zero_None: "group_or_zero None = 0"
  by (simp add: group_or_zero_def parseInt_def is_digit_def code_unit_def)

lemma group_or_zero_30: "group_or_zero (Some ''30'') = 30"
  by (simp add: group_or_zero_def parseInt_def is_digit_def code_unit_def)

lemma valid_username_nonempty: "valid_username u \<Longrightarrow> u \<noteq> []"
  by (auto simp: valid_username_def)

lemma resolveShoutout_valid:
  "valid_username (clean_username user) \<Longrightarrow>
   resolveShoutout w user s =
     (case shoutout_body w (clean_username user) s of
        (None, s1) \<Rightarrow> (None, s1)
      | (Some (Inl e), s1) \<Rightarrow> (Some (msg_plain (clean_username user)), s1)
      | (Some (Inr message), s1) \<Rightarrow> (Some message, s1))"
  by (simp add: resolveShoutout_def Let_def valid_username_nonempty)

lemma truthy_get_prop: "truthy v \<Longrightarrow> \<exists>x. get_prop v k = Inr x"
  by (cases v) simp_all

lemma shoutout_body_found:
  "getTwitchUser w username s = (Some u, s1) \<Longrightarrow> truthy u \<Longrightarrow>
   get_prop u ''id'' = Inr userId \<Longrightarrow>
   getLastPlayedGame w userId s1 = (Some game, s2) \<Longrightarrow>
   shoutout_body w username s = (Some (compose username game), s2)"
  by (simp add: shoutout_body_def)

lemma shoutout_body_found_unsettled:
  "getTwitchUser w username s = (Some u, s1) \<Longrightarrow> truthy u \<Longrightarrow>
   get_prop u ''id'' = Inr userId \<Longrightarrow>
   getLastPlayedGame w userId s1 = (None, s2) \<Longrightarrow>
   shoutout_body w username s = (None, s2)"
  by (simp add: shoutout_body_def)

lemma shoutout_body_not_found:
  "getTwitchUser w username s = (Some u, s1) \<Longrightarrow> \<not> truthy u \<Longrightarrow>
   shoutout_body w username s = (Some (Inr (msg_not_found username)), s1)"
  by (simp add: shoutout_body_def)

lemma shoutout_body_unsettled:
  "getTwitchUser w username s = (None, s1) \<Longrightarrow> shoutout_body w username s = (None, s1)"
  by (simp add: shoutout_body_def)

lemma compose_cases:
  "(\<exists>e. compose u game = Inl e) \<or> (\<exists>g. compose u game = Inr (msg_specific u g)) \<or>
   compose u game = Inr (msg_generic u) \<or> compose u game = Inr (msg_plain u)"
  by (cases "to_string game") (auto simp: compose_def ebind_def)

lemma url_in_specific: "str_includes (msg_specific u g) (channel_url u)"
proof -
  have "msg_specific u g =
      (''Check out '' @ u @ '', they are playing '' @ g @ '' at '') @ channel_url u @ ''!''"
    by (simp add: msg_specific_def)
  then show ?thesis by (simp only: str_includes_middle)
qed

lemma url_in_generic: "str_includes (msg_generic u) (channel_url u)"
proof -
  have "msg_generic u =
      (''Check out '' @ u @ '', great gaming content at '') @ channel_url u @ ''!''"
    by (simp add: msg_generic_def)
  then show ?thesis by (simp only: str_includes_middle)
qed

lemma url_in_plain: "str_includes (msg_plain u) (channel_url u)"
proof -
  have "msg_plain u = (''Check out '' @ u @ '' at '') @ channel_url u @ ''!''"
    by (simp add: msg_plain_def)
  then show ?thesis by (simp only: str_includes_middle)
qed

lemma no_url_in_not_found:
  assumes "valid_username u"
  shows "\<not> str_includes (msg_not_found u) (channel_url u)"
proof
  assume "str_includes (msg_not_found u) (channel_url u)"
  then have "set (channel_url u) \<subseteq> set (msg_not_found u)" by (rule str_includes_set)
  moreover have "CHR '':'' \<in> set (channel_url u)" by (simp add: channel_url_def)
  ultimately have "CHR '':'' \<in> set (msg_not_found u)" by blast
  then have "CHR '':'' \<in> set u" by (simp add: msg_not_found_def)
  with assms have "is_word_char (CHR '':'')" by (auto simp: valid_username_def list_all_iff)
  then show False by (simp add: is_word_char_def code_unit_def)
qed

lemma messages_nonempty:
  "msg_specific u g \<noteq> []" "msg_generic u \<noteq> []" "msg_plain u \<noteq> []" "msg_not_found u \<noteq> []"
  by (simp_all add: msg_specific_def msg_generic_def msg_plain_def msg_not_found_def)

lemma unconfigured_token:
  assumes "TWITCH_CLIENT_ID w = [] \<or> TWITCH_CLIENT_SECRET w = []" and "\<not> truthy (twitchToken s)"
  shows "getTwitchToken w s = (Some (Inl ConfigError), s)"
  using assms
  by (auto simp: getTwitchToken_def getTwitchToken_call_def token_fresh_def token_result_def)

lemma unconfigured_request:
  assumes "TWITCH_CLIENT_ID w = [] \<or> TWITCH_CLIENT_SECRET w = []" and "\<not> truthy (twitchToken s)"
  shows "makeApiRequest w path s = (Some (Inl ConfigError), s)"
  by (simp add: makeApiRequest_def unconfigured_token [OF assms])

lemma match_game_sound:
  "match_game t gs = JNull \<or>
   (\<exists>name \<in> set gs. match_game t gs = JStr name \<and>
      str_includes (toLowerCase t) (toLowerCase name))"
  by (induction gs) auto

lemma scan_videos_result: "scan_videos vs = Inr r \<Longrightarrow> r = JStr ''games'' \<or> r = JNull"
  by (induction vs) (auto split: sum.splits bool.splits if_splits)

lemma call_when_stale:
  assumes "TWITCH_CLIENT_ID w \<noteq> []" and "TWITCH_CLIENT_SECRET w \<noteq> []"
    and "\<not> truthy (twitchToken s) \<or> expired_at w s (ticks s)"
  shows "\<exists>s1. getTwitchToken_call w s =
             (Inr (Awaiting (length (sent s)) (TokenPost (postData w))), s1) \<and>
           sent s1 = sent s @ [TokenPost (postData w)] \<and>
           twitchToken s1 = twitchToken s \<and> tokenExpiry s1 = tokenExpiry s \<and>
           (ticks s1 = ticks s \<or> ticks s1 = Suc (ticks s)) \<and>
           (\<not> truthy (twitchToken s) \<longrightarrow> ticks s1 = ticks s)"
  using assms
  by (auto simp: getTwitchToken_call_def token_fresh_def Date_now_def expired_at_def)

lemma resolver_result_source:
  "fst (getLastPlayedGame w userId s) = Some r \<Longrightarrow>
   (\<exists>stream. fst (getCurrentStream w userId s) = Some stream \<and> named_game stream = Some r) \<or>
   (\<exists>channelInfo. fst (getChannelInfo w userId (snd (getCurrentStream w userId s))) =
        Some channelInfo \<and> named_game channelInfo = Some r) \<or>
   r = JStr ''games'' \<or> r = JNull"
  by (auto simp: getLastPlayedGame_def ebind_def
        split: prod.splits option.splits sum.splits dest: scan_videos_result)

lemma unconfigured_lookups:
  assumes "TWITCH_CLIENT_ID w = [] \<or> TWITCH_CLIENT_SECRET w = []"
    and "\<not> truthy (twitchToken s)"
  shows "getTwitchUser w username s = (Some JNull, s)"
    and "getCurrentStream w userId s = (Some JNull, s)"
    and "getChannelInfo w userId s = (Some JNull, s)"
    and "getRecentVideos w userId s = (Some (JArr []), s)"
proof -
  note req = unconfigured_request [OF assms]
  show "getTwitchUser w username s = (Some JNull, s)"
    by (simp add: getTwitchUser_def lookup_first_def catch_to_def req)
  show "getCurrentStream w userId s = (Some JNull, s)"
    by (cases "to_string userId")
       (simp_all add: getCurrentStream_def lookup_first_def catch_to_def req)
  show "getChannelInfo w userId s = (Some JNull, s)"
    by (cases "to_string userId")
       (simp_all add: getChannelInfo_def lookup_first_def catch_to_def req)
  show "getRecentVideos w userId s = (Some (JArr []), s)"
    by (cases "to_string userId") (simp_all add: getRecentVideos_def catch_to_def req)
qed

lemma unconfigured_resolver:
  assumes "TWITCH_CLIENT_ID w = [] \<or> TWITCH_CLIENT_SECRET w = []"
    and "\<not> truthy (twitchToken s)"
  shows "getLastPlayedGame w userId s = (Some JNull, s)"
  by (simp add: getLastPlayedGame_def unconfigured_lookups [OF assms] named_game_def ebind_def)

lemma unconfigured_route_state:
  assumes "TWITCH_CLIENT_ID w = [] \<or> TWITCH_CLIENT_SECRET w = []"
    and "\<not> truthy (twitchToken s)"
  shows "snd (resolveShoutout w user s) = s"
  by (simp add: resolveShoutout_def Let_def shoutout_body_def unconfigured_lookups [OF assms])

lemma unconfigured_history:
  assumes "TWITCH_CLIENT_ID w = [] \<or> TWITCH_CLIENT_SECRET w = []"
    and "\<not> truthy (twitchToken s)"
  shows "after_requests w history s = s"
  using assms(2)
  by (induction history) (simp_all add: unconfigured_route_state [OF assms(1)])

lemma getTwitchToken_settles:
  assumes "\<forall>n r. reply w n r \<noteq> Unsettled"
  shows "\<exists>r. fst (getTwitchToken w s) = Some r"
proof -
  have settle: "\<exists>r. fst (getTwitchToken_settle w out s') = Some r" if "out \<noteq> Unsettled"
    for out s'
    using that
    by (cases out)
       (auto simp: getTwitchToken_settle_def Date_now_def split: sum.splits prod.splits)
  obtain step s1 where c: "getTwitchToken_call w s = (step, s1)"
    by (cases "getTwitchToken_call w s")
  show ?thesis
  proof (cases step)
    case (Inl e)
    with c show ?thesis by (simp add: getTwitchToken_def token_result_def)
  next
    case (Inr st)
    show ?thesis
    proof (cases st)
      case (Cached tok)
      with c Inr show ?thesis by (simp add: getTwitchToken_def token_result_def)
    next
      case (Awaiting n r)
      from assms have "reply w n r \<noteq> Unsettled" by blast
      from settle [OF this, of s1] c Inr Awaiting show ?thesis
        by (simp add: getTwitchToken_def token_result_def)
    qed
  qed
qed

lemma makeApiRequest_settles:
  assumes "\<forall>n r. reply w n r \<noteq> Unsettled"
  shows "\<exists>r. fst (makeApiRequest w path s) = Some r"
proof -
  from getTwitchToken_settles [OF assms, of s] obtain r where
    "fst (getTwitchToken w s) = Some r" by blast
  then obtain s1 where t: "getTwitchToken w s = (Some r, s1)"
    by (cases "getTwitchToken w s") simp
  show ?thesis
  proof (cases r)
    case (Inl e)
    with t show ?thesis by (simp add: makeApiRequest_def)
  next
    case (Inr token)
    show ?thesis
    proof (cases "to_string token")
      case (Inl e)
      with t Inr show ?thesis by (simp add: makeApiRequest_def)
    next
      case bearer: (Inr b)
      let ?q = "ApiGet path (''Bearer '' @ b) (TWITCH_CLIENT_ID w)"
      from assms have "reply w (length (sent s1)) ?q \<noteq> Unsettled" by blast
      then show ?thesis
        using t Inr bearer
        by (cases "reply w (length (sent s1)) ?q") (simp_all add: makeApiRequest_def send_def)
    qed
  qed
qed

lemma lookup_first_settles:
  assumes "\<forall>n r. reply w n r \<noteq> Unsettled"
  shows "\<exists>r. fst (lookup_first w path s) = Some r"
  using makeApiRequest_settles [OF assms, of path s]
  by (auto simp: lookup_first_def split: prod.splits option.splits sum.splits)

lemma catch_to_settles: "fst r = Some x \<Longrightarrow> \<exists>v. fst (catch_to dflt r) = Some v"
  by (cases r; cases x) (simp_all add: catch_to_def)

lemma lookups_settle:
  assumes "\<forall>n r. reply w n r \<noteq> Unsettled"
  shows "\<exists>v. fst (getTwitchUser w username s) = Some v"
    and "\<exists>v. fst (getCurrentStream w userId s) = Some v"
    and "\<exists>v. fst (getChannelInfo w userId s) = Some v"
    and "\<exists>v. fst (getRecentVideos w userId s) = Some v"
proof -
  note lf = lookup_first_settles [OF assms]
  show "\<exists>v. fst (getTwitchUser w username s) = Some v"
    using lf [of "''/helix/users?login='' @ encodeURIComponent username" s]
    by (auto simp: getTwitchUser_def intro: catch_to_settles)
  show "\<exists>v. fst (getCurrentStream w userId s) = Some v"
  proof (cases "to_string userId")
    case (Inl e)
    then show ?thesis by (simp add: getCurrentStream_def catch_to_def)
  next
    case (Inr u)
    with lf [of "''/helix/streams?user_id='' @ u" s] show ?thesis
      by (auto simp: getCurrentStream_def intro: catch_to_settles)
  qed
  show "\<exists>v. fst (getChannelInfo w userId s) = Some v"
  proof (cases "to_string userId")
    case (Inl e)
    then show ?thesis by (simp add: getChannelInfo_def catch_to_def)
  next
    case (Inr u)
    with lf [of "''/helix/channels?broadcaster_id='' @ u" s] show ?thesis
      by (auto simp: getChannelInfo_def intro: catch_to_settles)
  qed
  show "\<exists>v. fst (getRecentVideos w userId s) = Some v"
  proof (cases "to_string userId")
    case (Inl e)
    then show ?thesis by (simp add: getRecentVideos_def catch_to_def)
  next
    case (Inr u)
    from makeApiRequest_settles [OF assms,
        of "''/helix/videos?user_id='' @ u @ ''&first=10&type=archive''" s]
    obtain r where "fst (makeApiRequest w
        (''/helix/videos?user_id='' @ u @ ''&first=10&type=archive'') s) = Some r" by blast
    with Inr show ?thesis
      by (cases r)
         (auto simp: getRecentVideos_def catch_to_def split: prod.splits sum.splits)
  qed
qed

lemma getLastPlayedGame_settles:
  assumes "\<forall>n r. reply w n r \<noteq> Unsettled"
  shows "\<exists>g. fst (getLastPlayedGame w userId s) = Some g"
proof -
  note l = lookups_settle [OF assms]
  obtain stream s1 where a: "getCurrentStream w userId s = (Some stream, s1)"
    using l(2) [of userId s] by (cases "getCurrentStream w userId s") auto
  obtain channelInfo s2 where b: "getChannelInfo w userId s1 = (Some channelInfo, s2)"
    using l(3) [of userId s1] by (cases "getChannelInfo w userId s1") auto
  obtain videos s3 where c: "getRecentVideos w userId s2 = (Some videos, s3)"
    using l(4) [of userId s2] by (cases "getRecentVideos w userId s2") auto
  from a b c show ?thesis
    by (simp add: getLastPlayedGame_def split: option.splits sum.splits)
qed

lemma shoutout_body_settles:
  assumes "\<forall>n r. reply w n r \<noteq> Unsettled"
  shows "\<exists>r. fst (shoutout_body w username s) = Some r"
proof -
  obtain u s1 where a: "getTwitchUser w username s = (Some u, s1)"
    using lookups_settle(1) [OF assms, of username s]
    by (cases "getTwitchUser w username s") auto
  show ?thesis
  proof (cases "truthy u")
    case False
    from shoutout_body_not_found [OF a False] show ?thesis by simp
  next
    case True
    from truthy_get_prop [OF True] obtain userId where i: "get_prop u ''id'' = Inr userId"
      by blast
    obtain g s2 where "getLastPlayedGame w userId s1 = (Some g, s2)"
      using getLastPlayedGame_settles [OF assms, of userId s1]
      by (cases "getLastPlayedGame w userId s1") auto
    from shoutout_body_found [OF a True i this] show ?thesis by simp
  qed
qed

section \<open>The claims\<close>

subsection \<open>C1: a live category ends the resolution at the first step\<close>

text \<open>
  C1, as amended. Whatever the upstream answers, when the live-stream lookup returns a
  snapshot whose \<^verbatim>\<open>game_name\<close> is present (truthy) and is not \<^verbatim>\<open>"Just Chatting"\<close>,
  \<^verbatim>\<open>getLastPlayedGame\<close> returns that value unchanged, in the state the lookup left; the
  requests issued meanwhile contain no channel-info lookup and no archived-broadcast
  lookup. The value reads as a specific category unless it is the string \<^verbatim>\<open>"games"\<close>,
  which the route reads as the generic signal.
\<close>

theorem live_category_short_circuits:
  assumes "getCurrentStream w userId s = (Some stream, s1)"
    and "truthy stream"
    and "get_prop stream ''game_name'' = Inr g"
    and "truthy g"
    and "g \<noteq> JStr ''Just Chatting''"
  shows "getLastPlayedGame w userId s = (Some g, s1) \<and>
         (g \<noteq> JStr ''games'' \<longrightarrow> resolved_as g = Specific g) \<and>
         (\<exists>new. sent s1 = sent s @ new \<and>
            list_all (\<lambda>q. \<not> is_channel_info_lookup q \<and> \<not> is_archive_lookup q) new)"
proof -
  from assms have "named_game stream = Some g" by (simp add: named_game_def)
  with assms(1) have 1: "getLastPlayedGame w userId s = (Some g, s1)"
    by (simp add: getLastPlayedGame_def)
  from assms(4) have 2: "g \<noteq> JStr ''games'' \<longrightarrow> resolved_as g = Specific g"
    by (simp add: resolved_as_def)
  from getCurrentStream_sent [OF assms(1)] obtain new where
    n: "sent s1 = sent s @ new" "list_all (\<lambda>q. is_token_exchange q \<or> is_stream_lookup q) new"
    by blast
  from n(2) have "list_all (\<lambda>q. \<not> is_channel_info_lookup q \<and> \<not> is_archive_lookup q) new"
    using stream_lookup_is_no_other by (auto simp: list_all_iff)
  with n(1) have 3: "\<exists>new. sent s1 = sent s @ new \<and>
      list_all (\<lambda>q. \<not> is_channel_info_lookup q \<and> \<not> is_archive_lookup q) new" by blast
  from 1 2 3 show ?thesis by blast
qed

text \<open>On the healthy platform, a channel live in Valorant: one token exchange, one stream
  lookup, nothing else.\<close>

theorem live_category_short_circuits_witness:
  "getLastPlayedGame (world_live ''Valorant'') (JStr ''42'') initial_state =
     (Some (JStr ''Valorant''),
      \<lparr>twitchToken = JStr ''tok'', tokenExpiry = Fin 3541000, ticks = 1,
       sent = [TokenPost ''client_id=abc&client_secret=xyz&grant_type=client_credentials'',
               ApiGet ''/helix/streams?user_id=42'' ''Bearer tok'' ''abc'']\<rparr>) \<and>
   resolved_as (JStr ''Valorant'') = Specific (JStr ''Valorant'')"
proof -
  have 1: "getCurrentStream (world_live ''Valorant'') (JStr ''42'') initial_state =
     (Some (JObj [(''game_name'', JStr ''Valorant''), (''title'', JStr ''ranked'')]),
      \<lparr>twitchToken = JStr ''tok'', tokenExpiry = Fin 3541000, ticks = 1,
       sent = [TokenPost ''client_id=abc&client_secret=xyz&grant_type=client_credentials'',
               ApiGet ''/helix/streams?user_id=42'' ''Bearer tok'' ''abc'']\<rparr>)"
    by code_simp
  have 2: "truthy (JObj [(''game_name'', JStr ''Valorant''), (''title'', JStr ''ranked'')])"
    by simp
  have 3: "get_prop (JObj [(''game_name'', JStr ''Valorant''), (''title'', JStr ''ranked'')])
             ''game_name'' = Inr (JStr ''Valorant'')"
    by simp
  have 4: "truthy (JStr ''Valorant'')" by simp
  have 5: "JStr ''Valorant'' \<noteq> JStr ''Just Chatting''" by simp
  have 6: "JStr ''Valorant'' \<noteq> JStr ''games''" by simp
  from live_category_short_circuits [OF 1 2 3 4 5] 6 show ?thesis by blast
qed

text \<open>C1 as stated fails when the live category is itself named \<^verbatim>\<open>games\<close>: the snapshot
  has a category other than \<^verbatim>\<open>Just Chatting\<close>, and the resolver's result is the generic
  signal, not a specific category.\<close>

theorem live_category_games_counterexample:
  "fst (getCurrentStream (world_live ''games'') (JStr ''42'') initial_state) =
     Some (JObj [(''game_name'', JStr ''games''), (''title'', JStr ''ranked'')]) \<and>
   fst (getLastPlayedGame (world_live ''games'') (JStr ''42'') initial_state) =
     Some (JStr ''games'') \<and>
   resolved_as (JStr ''games'') = Generic \<and>
   Generic \<noteq> Specific (JStr ''games'')"
  by code_simp

subsection \<open>C2: what a valid username receives\<close>

text \<open>
  C2, as amended. For every username that matches \<^verbatim>\<open>^[a-zA-Z0-9_]{4,25}$\<close> after
  trimming and stripping a leading \<^verbatim>\<open>@\<close>: provided every request the process issues
  is settled (answered or failed), the route sends a string, whatever the upstream
  answers. Whenever the route sends a string, the string is not empty; it contains the
  channel URL \<^verbatim>\<open>https://twitch.tv/<login>\<close> when the user lookup returned a user; and it
  is the ``not found'' sentence, which names the login and contains no URL, when the
  lookup returned nothing, which is what it does when every request fails. When the
  \<^verbatim>\<open>try\<close> block throws, the \<^verbatim>\<open>catch\<close> sends the plain sentence made of the login and
  the channel URL. When the user lookup is never settled, the route sends nothing, so
  the proviso cannot be dropped.
\<close>

theorem valid_username_gets_a_message:
  assumes "valid_username (clean_username user)"
  shows "((\<forall>n r. reply w n r \<noteq> Unsettled) \<longrightarrow>
            (\<exists>m. fst (resolveShoutout w user s) = Some m)) \<and>
         (fst (resolveShoutout w user s) = Some m \<longrightarrow>
            m \<noteq> [] \<and>
            (\<exists>u. fst (getTwitchUser w (clean_username user) s) = Some u \<and>
               (truthy u \<longrightarrow> str_includes m (channel_url (clean_username user))) \<and>
               (\<not> truthy u \<longrightarrow> m = msg_not_found (clean_username user)))) \<and>
         \<not> str_includes (msg_not_found (clean_username user)) (channel_url (clean_username user)) \<and>
         (\<forall>e. fst (shoutout_body w (clean_username user) s) = Some (Inl e) \<longrightarrow>
            fst (resolveShoutout w user s) = Some (msg_plain (clean_username user))) \<and>
         (fst (getTwitchUser w (clean_username user) s) = None \<longrightarrow>
            fst (resolveShoutout w user s) = None)"
proof -
  let ?u = "clean_username user"
  note rv = resolveShoutout_valid [OF assms]
  have A: "(\<forall>n r. reply w n r \<noteq> Unsettled) \<longrightarrow> (\<exists>m. fst (resolveShoutout w user s) = Some m)"
  proof
    assume "\<forall>n r. reply w n r \<noteq> Unsettled"
    from shoutout_body_settles [OF this, of ?u s] obtain r where
      "fst (shoutout_body w ?u s) = Some r" by blast
    then show "\<exists>m. fst (resolveShoutout w user s) = Some m"
      by (cases r) (auto simp: rv split: prod.splits)
  qed
  have B: "fst (resolveShoutout w user s) = Some m \<longrightarrow>
            m \<noteq> [] \<and>
            (\<exists>u. fst (getTwitchUser w ?u s) = Some u \<and>
               (truthy u \<longrightarrow> str_includes m (channel_url ?u)) \<and>
               (\<not> truthy u \<longrightarrow> m = msg_not_found ?u))"
  proof
    assume m: "fst (resolveShoutout w user s) = Some m"
    obtain x s1 where x: "getTwitchUser w ?u s = (x, s1)" by (cases "getTwitchUser w ?u s")
    show "m \<noteq> [] \<and>
            (\<exists>u. fst (getTwitchUser w ?u s) = Some u \<and>
               (truthy u \<longrightarrow> str_includes m (channel_url ?u)) \<and>
               (\<not> truthy u \<longrightarrow> m = msg_not_found ?u))"
    proof (cases x)
      case None
      with x have "shoutout_body w ?u s = (None, s1)" by (simp add: shoutout_body_unsettled)
      with m show ?thesis by (simp add: rv)
    next
      case (Some usr)
      with x have usr: "getTwitchUser w ?u s = (Some usr, s1)" by simp
      show ?thesis
      proof (cases "truthy usr")
        case False
        from shoutout_body_not_found [OF usr False] m have "m = msg_not_found ?u"
          by (simp add: rv)
        with False usr messages_nonempty(4) [of ?u] show ?thesis by simp
      next
        case True
        from truthy_get_prop [OF True] obtain userId where
          uid: "get_prop usr ''id'' = Inr userId" by blast
        obtain game s2 where game: "getLastPlayedGame w userId s1 = (game, s2)"
          by (cases "getLastPlayedGame w userId s1")
        have "m \<noteq> [] \<and> str_includes m (channel_url ?u)"
        proof (cases game)
          case None
          with game shoutout_body_found_unsettled [OF usr True uid] m show ?thesis
            by (simp add: rv)
        next
          case (Some g)
          with game shoutout_body_found [OF usr True uid]
          have body: "shoutout_body w ?u s = (Some (compose ?u g), s2)" by simp
          from compose_cases [of ?u g] body m show ?thesis
            by (auto simp: rv messages_nonempty url_in_specific url_in_generic url_in_plain)
        qed
        with True usr show ?thesis by simp
      qed
    qed
  qed
  have C: "\<not> str_includes (msg_not_found ?u) (channel_url ?u)"
    by (rule no_url_in_not_found [OF assms])
  have D: "\<forall>e. fst (shoutout_body w ?u s) = Some (Inl e) \<longrightarrow>
      fst (resolveShoutout w user s) = Some (msg_plain ?u)"
    by (auto simp: rv split: prod.splits)
  have E: "fst (getTwitchUser w ?u s) = None \<longrightarrow> fst (resolveShoutout w user s) = None"
  proof
    assume n: "fst (getTwitchUser w ?u s) = None"
    then obtain s1 where "getTwitchUser w ?u s = (None, s1)"
      by (cases "getTwitchUser w ?u s") simp
    from shoutout_body_unsettled [OF this] show "fst (resolveShoutout w user s) = None"
      by (simp add: rv)
  qed
  from A B C D E show ?thesis by blast
qed

text \<open>A live channel; an upstream that is down; a snapshot whose \<^verbatim>\<open>game_name\<close> cannot be
  converted to a string, which is how the \<^verbatim>\<open>catch\<close> of line 237 is reached; and an
  upstream that never answers.\<close>

theorem valid_username_gets_a_message_witness:
  "fst (resolveShoutout (world_live ''Valorant'') ''shroud'' initial_state) =
     Some ''Check out shroud, they are playing Valorant at https://twitch.tv/shroud!'' \<and>
   str_includes ''Check out shroud, they are playing Valorant at https://twitch.tv/shroud!''
     (channel_url (clean_username ''shroud'')) \<and>
   (\<exists>m. fst (resolveShoutout world_down ''shroud'' initial_state) = Some m) \<and>
   fst (resolveShoutout world_down ''shroud'' initial_state) =
     Some (msg_not_found (clean_username ''shroud'')) \<and>
   fst (resolveShoutout (world_streaming (JObj [(''toString'', JNum 1)])) ''shroud'' initial_state) =
     Some (msg_plain (clean_username ''shroud'')) \<and>
   fst (resolveShoutout world_stalled ''shroud'' initial_state) = None"
proof -
  have 1: "valid_username (clean_username ''shroud'')" by code_simp
  have 2: "fst (getTwitchUser (world_live ''Valorant'') (clean_username ''shroud'')
             initial_state) = Some (JObj [(''id'', JStr ''42'')])" by code_simp
  have 3: "fst (resolveShoutout (world_live ''Valorant'') ''shroud'' initial_state) =
     Some ''Check out shroud, they are playing Valorant at https://twitch.tv/shroud!''"
    by code_simp
  have 4: "fst (getTwitchUser world_down (clean_username ''shroud'') initial_state) = Some JNull"
    by code_simp
  have 5: "fst (shoutout_body (world_streaming (JObj [(''toString'', JNum 1)]))
             (clean_username ''shroud'') initial_state) = Some (Inl TypeError)" by code_simp
  have 6: "fst (getTwitchUser world_stalled (clean_username ''shroud'') initial_state) = None"
    by code_simp
  have 7: "\<forall>n r. reply world_down n r \<noteq> Unsettled" by (simp add: world_down_def)
  from valid_username_gets_a_message [OF 1, of "world_live ''Valorant''" initial_state
      "''Check out shroud, they are playing Valorant at https://twitch.tv/shroud!''"] 2 3
  have a: "str_includes ''Check out shroud, they are playing Valorant at https://twitch.tv/shroud!''
     (channel_url (clean_username ''shroud''))" by simp
  from valid_username_gets_a_message [OF 1, of world_down initial_state] 7
  obtain m where m: "fst (resolveShoutout world_down ''shroud'' initial_state) = Some m"
    by blast
  from valid_username_gets_a_message [OF 1, of world_down initial_state m] m 4
  have b: "m = msg_not_found (clean_username ''shroud'')" by simp
  from valid_username_gets_a_message
         [OF 1, of "world_streaming (JObj [(''toString'', JNum 1)])" initial_state] 5
  have c: "fst (resolveShoutout (world_streaming (JObj [(''toString'', JNum 1)])) ''shroud''
             initial_state) = Some (msg_plain (clean_username ''shroud''))" by blast
  from valid_username_gets_a_message [OF 1, of world_stalled initial_state] 6
  have d: "fst (resolveShoutout world_stalled ''shroud'' initial_state) = None" by blast
  from 3 a m b c d show ?thesis by simp
qed

text \<open>C2 as stated fails when every request fails: the login is valid and the answer has
  no channel URL.\<close>

theorem upstream_failure_counterexample:
  "valid_username (clean_username ''ninja'') \<and>
   fst (resolveShoutout world_down ''ninja'' initial_state) = Some (msg_not_found ''ninja'') \<and>
   \<not> str_includes (msg_not_found ''ninja'') (channel_url ''ninja'')"
  by code_simp

subsection \<open>C3: a failed credential exchange\<close>

text \<open>
  C3, as amended. For every prior cache state in which the token is absent or expired,
  if the credential exchange ends in a transport error, or its body is not JSON, or its
  body is the JSON value \<^verbatim>\<open>null\<close>, then \<^verbatim>\<open>getTwitchToken\<close> fails with an error and
  the cached token and its expiry are exactly what they were before the call.
\<close>

theorem failed_exchange_keeps_cache:
  assumes "\<not> fst (token_fresh w s)"
    and "reply w (length (sent s)) (TokenPost (postData w)) \<in> {ReqError, Unparseable, Parsed JNull}"
  shows "(\<exists>e. fst (getTwitchToken w s) = Some (Inl e)) \<and>
         twitchToken (snd (getTwitchToken w s)) = twitchToken s \<and>
         tokenExpiry (snd (getTwitchToken w s)) = tokenExpiry s"
proof -
  obtain b s0 where f: "token_fresh w s = (b, s0)" by (cases "token_fresh w s")
  with assms(1) have b: "\<not> b" by simp
  from token_fresh_frame [OF f]
  have fr: "sent s0 = sent s" "twitchToken s0 = twitchToken s" "tokenExpiry s0 = tokenExpiry s"
    by simp_all
  show ?thesis
  proof (cases "TWITCH_CLIENT_ID w = [] \<or> TWITCH_CLIENT_SECRET w = []")
    case True
    with f b fr show ?thesis
      by (simp add: getTwitchToken_def getTwitchToken_call_def token_result_def)
  next
    case False
    with f b have "getTwitchToken w s =
        getTwitchToken_settle w (reply w (length (sent s0)) (TokenPost (postData w)))
          (s0\<lparr>sent := sent s0 @ [TokenPost (postData w)]\<rparr>)"
      by (simp add: getTwitchToken_def getTwitchToken_call_def token_result_def)
    with assms(2) fr show ?thesis
      by (auto simp: getTwitchToken_settle_def)
  qed
qed

text \<open>A transport error with an expired token in the cache.\<close>

theorem failed_exchange_keeps_cache_witness:
  "fst (getTwitchToken world_down stale_state) = Some (Inl TransportError) \<and>
   twitchToken (snd (getTwitchToken world_down stale_state)) = JStr ''old'' \<and>
   tokenExpiry (snd (getTwitchToken world_down stale_state)) = Fin 500"
proof -
  have 1: "\<not> fst (token_fresh world_down stale_state)" by code_simp
  have 2: "reply world_down (length (sent stale_state)) (TokenPost (postData world_down))
             \<in> {ReqError, Unparseable, Parsed JNull}"
    by (simp add: world_down_def)
  have 3: "fst (getTwitchToken world_down stale_state) = Some (Inl TransportError)"
    by code_simp
  have 4: "twitchToken stale_state = JStr ''old'' \<and> tokenExpiry stale_state = Fin 500"
    by (simp add: stale_state_def)
  from failed_exchange_keeps_cache [OF 1 2] 3 4 show ?thesis by simp
qed

text \<open>C3 as stated fails for a response that is JSON of the wrong shape, such as the error
  body of a refused exchange: the call succeeds with \<^verbatim>\<open>undefined\<close>, and the cache now
  holds \<^verbatim>\<open>undefined\<close> and \<^verbatim>\<open>NaN\<close> in place of the old token and expiry.\<close>

theorem refused_exchange_counterexample:
  "\<not> fst (token_fresh world_refused stale_state) \<and>
   reply world_refused 0 (TokenPost (postData world_refused)) =
     Parsed (JObj [(''status'', JNum 400), (''message'', JStr ''invalid client'')]) \<and>
   fst (getTwitchToken world_refused stale_state) = Some (Inr JUndefined) \<and>
   twitchToken stale_state = JStr ''old'' \<and>
   twitchToken (snd (getTwitchToken world_refused stale_state)) = JUndefined \<and>
   tokenExpiry stale_state = Fin 500 \<and>
   tokenExpiry (snd (getTwitchToken world_refused stale_state)) = NaN"
  by code_simp

subsection \<open>C4: two calls at the same time\<close>

text \<open>
  C4, as amended. With both secrets configured, if two calls of \<^verbatim>\<open>getTwitchToken\<close> are
  made before either request has completed and both find the cached token absent or
  expired, then each of them issues a credential exchange of its own: two requests are
  sent, the cache is untouched until a response arrives, and each call receives the
  result of its own request. There is no single-flight refresh.
\<close>

theorem concurrent_calls_each_refresh:
  assumes "TWITCH_CLIENT_ID w \<noteq> []" and "TWITCH_CLIENT_SECRET w \<noteq> []"
    and "\<not> truthy (twitchToken s) \<or> (expired_at w s (ticks s) \<and> expired_at w s (Suc (ticks s)))"
  shows "\<exists>s2. two_concurrent_calls w s =
             (Inr (Awaiting (length (sent s)) (TokenPost (postData w))),
              Inr (Awaiting (Suc (length (sent s))) (TokenPost (postData w))), s2) \<and>
           sent s2 = sent s @ [TokenPost (postData w), TokenPost (postData w)] \<and>
           twitchToken s2 = twitchToken s \<and> tokenExpiry s2 = tokenExpiry s \<and>
           (\<forall>s'. token_result w (Inr (Awaiting (length (sent s)) (TokenPost (postData w)))) s' =
                   getTwitchToken_settle w
                     (reply w (length (sent s)) (TokenPost (postData w))) s') \<and>
           (\<forall>s'. token_result w (Inr (Awaiting (Suc (length (sent s))) (TokenPost (postData w)))) s' =
                   getTwitchToken_settle w
                     (reply w (Suc (length (sent s))) (TokenPost (postData w))) s')"
proof -
  from assms(3) have first: "\<not> truthy (twitchToken s) \<or> expired_at w s (ticks s)" by blast
  from call_when_stale [OF assms(1) assms(2) first] obtain s1 where
    s1: "getTwitchToken_call w s = (Inr (Awaiting (length (sent s)) (TokenPost (postData w))), s1)"
        "sent s1 = sent s @ [TokenPost (postData w)]"
        "twitchToken s1 = twitchToken s" "tokenExpiry s1 = tokenExpiry s"
        "ticks s1 = ticks s \<or> ticks s1 = Suc (ticks s)"
        "\<not> truthy (twitchToken s) \<longrightarrow> ticks s1 = ticks s"
    by blast
  have second: "\<not> truthy (twitchToken s1) \<or> expired_at w s1 (ticks s1)"
  proof (cases "truthy (twitchToken s)")
    case False
    with s1(3) show ?thesis by simp
  next
    case True
    with assms(3) have e: "expired_at w s (ticks s)" "expired_at w s (Suc (ticks s))" by simp_all
    from True s1(1) have "ticks s1 = Suc (ticks s)"
      by (auto simp: getTwitchToken_call_def token_fresh_def Date_now_def split: if_splits)
    with e(2) s1(4) show ?thesis by (simp add: expired_at_def)
  qed
  from call_when_stale [OF assms(1) assms(2) second] obtain s2 where
    s2: "getTwitchToken_call w s1 =
           (Inr (Awaiting (length (sent s1)) (TokenPost (postData w))), s2)"
        "sent s2 = sent s1 @ [TokenPost (postData w)]"
        "twitchToken s2 = twitchToken s1" "tokenExpiry s2 = tokenExpiry s1"
    by blast
  from s1 s2 have "two_concurrent_calls w s =
             (Inr (Awaiting (length (sent s)) (TokenPost (postData w))),
              Inr (Awaiting (Suc (length (sent s))) (TokenPost (postData w))), s2) \<and>
           sent s2 = sent s @ [TokenPost (postData w), TokenPost (postData w)] \<and>
           twitchToken s2 = twitchToken s \<and> tokenExpiry s2 = tokenExpiry s"
    by (simp add: two_concurrent_calls_def)
  then show ?thesis by (auto simp: token_result_def)
qed

text \<open>Two calls on an expired token.\<close>

theorem concurrent_calls_each_refresh_witness:
  "sent (snd (snd (two_concurrent_calls (world_live ''Valorant'') stale_state))) =
     [TokenPost ''client_id=abc&client_secret=xyz&grant_type=client_credentials'',
      TokenPost ''client_id=abc&client_secret=xyz&grant_type=client_credentials'']"
proof -
  have 1: "TWITCH_CLIENT_ID (world_live ''Valorant'') \<noteq> []"
    by (simp add: world_live_def world_streaming_def)
  have 2: "TWITCH_CLIENT_SECRET (world_live ''Valorant'') \<noteq> []"
    by (simp add: world_live_def world_streaming_def)
  have 3: "\<not> truthy (twitchToken stale_state) \<or>
           (expired_at (world_live ''Valorant'') stale_state (ticks stale_state) \<and>
            expired_at (world_live ''Valorant'') stale_state (Suc (ticks stale_state)))"
    by code_simp
  have 4: "postData (world_live ''Valorant'') =
             ''client_id=abc&client_secret=xyz&grant_type=client_credentials''" by code_simp
  have 5: "sent stale_state = []" by (simp add: stale_state_def)
  from concurrent_calls_each_refresh [OF 1 2 3] 4 5 show ?thesis by auto
qed

text \<open>C4 as stated fails from the start of the process: with no token cached, two
  concurrent calls put two credential exchanges on the wire, not one.\<close>

theorem single_flight_counterexample:
  "\<not> truthy (twitchToken initial_state) \<and>
   length (filter is_token_exchange
     (sent (snd (snd (two_concurrent_calls (world_live ''Valorant'') initial_state))))) = 2"
  by code_simp

subsection \<open>C5: usernames that fail validation\<close>

text \<open>
  C5, as amended. For every input whose trimmed and \<^verbatim>\<open>@\<close>-stripped form fails
  \<^verbatim>\<open>^[a-zA-Z0-9_]{4,25}$\<close>, the route sends a fixed human-readable message and leaves
  the state as it was (no exception, no upstream request): the usage message of line 204
  when the stripped form is empty, the validation-error message of line 209 otherwise.
\<close>

theorem invalid_username_message:
  "\<not> valid_username (clean_username user) \<Longrightarrow>
   resolveShoutout w user s =
     (Some (if clean_username user = [] then msg_missing else msg_invalid), s)"
  by (simp add: resolveShoutout_def Let_def)

text \<open>Both branches, on a name with a space and an exclamation mark and on a lone
  \<^verbatim>\<open>@\<close>.\<close>

theorem invalid_username_message_witness:
  "resolveShoutout world_down ''  @bad name! '' initial_state =
     (Some msg_invalid, initial_state) \<and>
   resolveShoutout world_down '' @ '' initial_state = (Some msg_missing, initial_state)"
proof -
  have 1: "\<not> valid_username (clean_username ''  @bad name! '')" by code_simp
  have 2: "clean_username ''  @bad name! '' \<noteq> []" by code_simp
  have 3: "\<not> valid_username (clean_username '' @ '')" by code_simp
  have 4: "clean_username '' @ '' = []" by code_simp
  from invalid_username_message [OF 1, of world_down initial_state] 2
    invalid_username_message [OF 3, of world_down initial_state] 4
  show ?thesis by simp
qed

text \<open>C5 as stated asks for one single message; the empty stripped form and a non-empty
  invalid one get two different messages.\<close>

theorem empty_username_counterexample:
  "\<not> valid_username (clean_username ''@'') \<and>
   \<not> valid_username (clean_username ''a!'') \<and>
   fst (resolveShoutout world_down ''@'' initial_state) = Some msg_missing \<and>
   fst (resolveShoutout world_down ''a!'' initial_state) = Some msg_invalid \<and>
   msg_missing \<noteq> msg_invalid"
  by code_simp

subsection \<open>C6: no game name is made up from a title\<close>

text \<open>
  C6. For every list of archived broadcast records, the scan of \<^verbatim>\<open>getLastPlayedGame\<close>
  returns only the generic signal \<^verbatim>\<open>"games"\<close> or \<^verbatim>\<open>null\<close>, never a specific name; a
  record that passes the duration and denylist filters yields exactly the generic
  signal; and whatever \<^verbatim>\<open>getLastPlayedGame\<close> returns besides these two is the
  \<^verbatim>\<open>game_name\<close> of the live snapshot or of the channel information. In the variant of
  \<^verbatim>\<open>src/unnamed/part_000\<close>, the title sniffing yields \<^verbatim>\<open>null\<close> or a name of the
  allowlist whose lower-cased form occurs in the lower-cased title of the most recent
  record.
\<close>

theorem title_sniffing_never_fabricates:
  "(scan_videos vs = Inr r \<longrightarrow> (r = JStr ''games'' \<or> r = JNull) \<and> resolved_as r \<noteq> Specific r) \<and>
   (video_is_game v = Inr True \<longrightarrow>
      scan_videos (v # rest) = Inr (JStr ''games'') \<and> resolved_as (JStr ''games'') = Generic) \<and>
   (fst (getLastPlayedGame w userId s) = Some g \<longrightarrow>
      (\<exists>stream. fst (getCurrentStream w userId s) = Some stream \<and>
         named_game stream = Some g) \<or>
      (\<exists>channelInfo. fst (getChannelInfo w userId (snd (getCurrentStream w userId s))) =
           Some channelInfo \<and> named_game channelInfo = Some g) \<or>
      g = JStr ''games'' \<or> g = JNull) \<and>
   (sniff_recent_game stn videos = Inr game \<longrightarrow>
      game = JNull \<or>
      (\<exists>name t recentVideo. name \<in> set commonGames \<and> game = JStr name \<and>
         index0 videos = Inr recentVideo \<and> get_prop recentVideo ''title'' = Inr (JStr t) \<and>
         str_includes (toLowerCase t) (toLowerCase name)))"
proof -
  have A: "scan_videos vs = Inr r \<longrightarrow>
      (r = JStr ''games'' \<or> r = JNull) \<and> resolved_as r \<noteq> Specific r"
    by (auto simp: resolved_as_def dest: scan_videos_result)
  have B: "video_is_game v = Inr True \<longrightarrow>
      scan_videos (v # rest) = Inr (JStr ''games'') \<and> resolved_as (JStr ''games'') = Generic"
    by (simp add: resolved_as_def)
  have C: "fst (getLastPlayedGame w userId s) = Some g \<longrightarrow>
      (\<exists>stream. fst (getCurrentStream w userId s) = Some stream \<and>
         named_game stream = Some g) \<or>
      (\<exists>channelInfo. fst (getChannelInfo w userId (snd (getCurrentStream w userId s))) =
           Some channelInfo \<and> named_game channelInfo = Some g) \<or>
      g = JStr ''games'' \<or> g = JNull"
    using resolver_result_source [of w userId s g] by blast
  have D: "sniff_recent_game stn videos = Inr game \<longrightarrow>
      game = JNull \<or>
      (\<exists>name t recentVideo. name \<in> set commonGames \<and> game = JStr name \<and>
         index0 videos = Inr recentVideo \<and> get_prop recentVideo ''title'' = Inr (JStr t) \<and>
         str_includes (toLowerCase t) (toLowerCase name))"
  proof
    assume a: "sniff_recent_game stn videos = Inr game"
    show "game = JNull \<or>
      (\<exists>name t recentVideo. name \<in> set commonGames \<and> game = JStr name \<and>
         index0 videos = Inr recentVideo \<and> get_prop recentVideo ''title'' = Inr (JStr t) \<and>
         str_includes (toLowerCase t) (toLowerCase name))"
    proof (cases "game = JNull")
      case True
      then show ?thesis by simp
    next
      case False
      with a obtain recentVideo title where
        rv: "index0 videos = Inr recentVideo" "get_prop recentVideo ''title'' = Inr title"
            "truthy title" "ebind (as_string title) (\<lambda>t. Inr (match_game t commonGames)) = Inr game"
        by (auto simp: sniff_recent_game_def ebind_def split: sum.splits if_splits)
      from rv(4) obtain t where t: "title = JStr t" "match_game t commonGames = game"
        by (cases title) (auto simp: as_string_def ebind_def)
      from match_game_sound [of t commonGames] t(2) False
      obtain name where "name \<in> set commonGames" "game = JStr name"
        "str_includes (toLowerCase t) (toLowerCase name)" by auto
      with rv t show ?thesis by blast
    qed
  qed
  from A B C D show ?thesis by blast
qed

text \<open>A 45-minute record titled ``Late night Minecraft build'': the generic signal in the
  main variant, the allowlisted name \<^verbatim>\<open>Minecraft\<close> in the other.\<close>

theorem title_sniffing_never_fabricates_witness:
  "scan_videos [archive_video ''Late night Minecraft build'' ''PT45M''] = Inr (JStr ''games'') \<and>
   resolved_as (JStr ''games'') = Generic \<and>
   sniff_recent_game (\<lambda>s. NaN) (JArr [archive_video ''Late night Minecraft build'' ''PT45M'']) =
     Inr (JStr ''Minecraft'') \<and>
   (\<exists>name t recentVideo. name \<in> set commonGames \<and> JStr ''Minecraft'' = JStr name \<and>
      index0 (JArr [archive_video ''Late night Minecraft build'' ''PT45M'']) = Inr recentVideo \<and>
      get_prop recentVideo ''title'' = Inr (JStr t) \<and>
      str_includes (toLowerCase t) (toLowerCase name))"
proof -
  have 1: "video_is_game (archive_video ''Late night Minecraft build'' ''PT45M'') = Inr True"
    by code_simp
  have 2: "sniff_recent_game (\<lambda>s. NaN) (JArr [archive_video ''Late night Minecraft build'' ''PT45M'']) =
     Inr (JStr ''Minecraft'')" by code_simp
  have 3: "JStr ''Minecraft'' \<noteq> JNull" by simp
  from title_sniffing_never_fabricates
         [of _ _ "archive_video ''Late night Minecraft build'' ''PT45M''" "[]" _ _ _ _ "\<lambda>s. NaN"
             "JArr [archive_video ''Late night Minecraft build'' ''PT45M'']" "JStr ''Minecraft''"]
       1 2 3
  show ?thesis by blast
qed

subsection \<open>C7: short and denylisted records are skipped\<close>

text \<open>
  C7. In the scan of the archived broadcasts, a record whose duration string parses (by
  the pattern of line 161 and the sum of line 165) to fewer than 30 minutes is skipped,
  whatever its title and type: the scan goes on with the next record; so is, in
  particular, every record with duration \<^verbatim>\<open>PT15M\<close>. A record whose lower-cased title
  contains one of the seven denylist keywords never yields a result, and is skipped
  whenever its duration is a string or is absent, as it is in the platform's records; so
  is, in particular, a record titled \<^verbatim>\<open>Just chatting with friends\<close>.
\<close>

theorem short_or_denylisted_records_are_skipped:
  "(get_prop v ''duration'' = Inr (JStr d) \<longrightarrow> durationMatch d = Some g \<longrightarrow>
      totalMinutes g < 30 \<longrightarrow> scan_videos (v # rest) = scan_videos rest) \<and>
   (get_prop v ''duration'' = Inr (JStr ''PT15M'') \<longrightarrow>
      scan_videos (v # rest) = scan_videos rest) \<and>
   (get_prop v ''title'' = Inr (JStr t) \<longrightarrow>
      (\<exists>word \<in> set skipWords. str_includes (toLowerCase t) word) \<longrightarrow>
      video_is_game v \<noteq> Inr True \<and>
      (get_prop v ''duration'' = Inr x \<longrightarrow> (\<not> truthy x \<or> (\<exists>dur. x = JStr dur)) \<longrightarrow>
         scan_videos (v # rest) = scan_videos rest)) \<and>
   (get_prop v ''title'' = Inr (JStr ''Just chatting with friends'') \<longrightarrow>
      video_is_game v \<noteq> Inr True \<and>
      (get_prop v ''duration'' = Inr x \<longrightarrow> (\<not> truthy x \<or> (\<exists>dur. x = JStr dur)) \<longrightarrow>
         scan_videos (v # rest) = scan_videos rest))"
proof -
  have A: "get_prop v ''duration'' = Inr (JStr d) \<longrightarrow> durationMatch d = Some g \<longrightarrow>
      totalMinutes g < 30 \<longrightarrow> scan_videos (v # rest) = scan_videos rest"
    using video_is_game_short [of v d g] by simp
  have m15: "durationMatch ''PT15M'' = Some (None, Some ''15'', None)" by code_simp
  have t15: "totalMinutes (None, Some ''15'', None) = 15" by code_simp
  have B: "get_prop v ''duration'' = Inr (JStr ''PT15M'') \<longrightarrow>
      scan_videos (v # rest) = scan_videos rest"
    using video_is_game_short [of v "''PT15M''" "(None, Some ''15'', None)"] m15 t15 by simp
  have C: "\<And>t. get_prop v ''title'' = Inr (JStr t) \<Longrightarrow> hasSkipWord (toLowerCase t) \<Longrightarrow>
      video_is_game v \<noteq> Inr True \<and>
      (get_prop v ''duration'' = Inr x \<longrightarrow> (\<not> truthy x \<or> (\<exists>dur. x = JStr dur)) \<longrightarrow>
         scan_videos (v # rest) = scan_videos rest)"
  proof -
    fix t
    assume t: "get_prop v ''title'' = Inr (JStr t)" and skip: "hasSkipWord (toLowerCase t)"
    have no: "video_is_game v \<noteq> Inr True"
    proof
      assume "video_is_game v = Inr True"
      from video_is_game_True [OF this] t skip show False by auto
    qed
    have "get_prop v ''duration'' = Inr x \<longrightarrow> (\<not> truthy x \<or> (\<exists>dur. x = JStr dur)) \<longrightarrow>
         video_is_game v = Inr False"
    proof (intro impI)
      assume x: "get_prop v ''duration'' = Inr x" and ty: "\<not> truthy x \<or> (\<exists>dur. x = JStr dur)"
      from get_prop_total [OF x] obtain a where a: "get_prop v ''type'' = Inr a" by blast
      from ty show "video_is_game v = Inr False"
      proof
        assume "\<not> truthy x"
        with a x show ?thesis by (simp add: video_is_game_def ebind_def)
      next
        assume "\<exists>dur. x = JStr dur"
        then obtain dur where "x = JStr dur" by blast
        with a x t skip show ?thesis
          by (simp add: video_is_game_def ebind_def as_string_def split: option.splits)
      qed
    qed
    with no show "video_is_game v \<noteq> Inr True \<and>
      (get_prop v ''duration'' = Inr x \<longrightarrow> (\<not> truthy x \<or> (\<exists>dur. x = JStr dur)) \<longrightarrow>
         scan_videos (v # rest) = scan_videos rest)" by simp
  qed
  have sk: "\<And>t. (\<exists>word \<in> set skipWords. str_includes (toLowerCase t) word) = hasSkipWord (toLowerCase t)"
    by (simp add: hasSkipWord_def list_ex_iff)
  have chat: "hasSkipWord (toLowerCase ''Just chatting with friends'')" by code_simp
  from A B C [of t] C [of "''Just chatting with friends''"] chat sk show ?thesis by blast
qed

text \<open>Four scans whose first record is skipped (15 minutes; the keyword \<^verbatim>\<open>chat\<close> on a
  two-hour record; the keyword \<^verbatim>\<open>talk\<close> in capitals on a three-hour record; 29 minutes
  59 seconds) and whose second record qualifies.\<close>

theorem short_or_denylisted_records_are_skipped_witness:
  "scan_videos [archive_video ''Minecraft speedrun'' ''PT15M'', archive_video ''Minecraft build'' ''PT45M''] =
     Inr (JStr ''games'') \<and>
   scan_videos [archive_video ''Just chatting with friends'' ''PT2H5M'', archive_video ''Minecraft build'' ''PT45M''] =
     Inr (JStr ''games'') \<and>
   scan_videos [archive_video ''Late night TALK show'' ''PT3H'', archive_video ''Minecraft build'' ''PT45M''] =
     Inr (JStr ''games'') \<and>
   scan_videos [archive_video ''Minecraft speedrun'' ''PT29M59S'', archive_video ''Minecraft build'' ''PT45M''] =
     Inr (JStr ''games'')"
proof -
  let ?rest = "[archive_video ''Minecraft build'' ''PT45M'']"
  have r: "scan_videos ?rest = Inr (JStr ''games'')" by code_simp
  have a1: "get_prop (archive_video ''Minecraft speedrun'' ''PT15M'') ''duration'' = Inr (JStr ''PT15M'')"
    by code_simp
  have a2: "get_prop (archive_video ''Just chatting with friends'' ''PT2H5M'') ''title'' =
              Inr (JStr ''Just chatting with friends'') \<and>
            get_prop (archive_video ''Just chatting with friends'' ''PT2H5M'') ''duration'' =
              Inr (JStr ''PT2H5M'')"
    by code_simp
  have a3: "get_prop (archive_video ''Late night TALK show'' ''PT3H'') ''title'' =
              Inr (JStr ''Late night TALK show'') \<and>
            get_prop (archive_video ''Late night TALK show'' ''PT3H'') ''duration'' = Inr (JStr ''PT3H'') \<and>
            ''talk'' \<in> set skipWords \<and>
            str_includes (toLowerCase ''Late night TALK show'') ''talk''"
    by code_simp
  have a4: "get_prop (archive_video ''Minecraft speedrun'' ''PT29M59S'') ''duration'' =
              Inr (JStr ''PT29M59S'') \<and>
            durationMatch ''PT29M59S'' = Some (None, Some ''29'', Some ''59'') \<and>
            totalMinutes (None, Some ''29'', Some ''59'') < 30"
    by code_simp
  from short_or_denylisted_records_are_skipped
         [of "archive_video ''Minecraft speedrun'' ''PT15M''" _ _ ?rest] a1 r
  have 1: "scan_videos (archive_video ''Minecraft speedrun'' ''PT15M'' # ?rest) = Inr (JStr ''games'')"
    by metis
  from short_or_denylisted_records_are_skipped
         [of "archive_video ''Just chatting with friends'' ''PT2H5M''" _ _ ?rest _ "JStr ''PT2H5M''"] a2 r
  have 2: "scan_videos (archive_video ''Just chatting with friends'' ''PT2H5M'' # ?rest) =
             Inr (JStr ''games'')"
    by metis
  from short_or_denylisted_records_are_skipped
         [of "archive_video ''Late night TALK show'' ''PT3H''" _ _ ?rest "''Late night TALK show''"
             "JStr ''PT3H''"] a3 r
  have 3: "scan_videos (archive_video ''Late night TALK show'' ''PT3H'' # ?rest) = Inr (JStr ''games'')"
    by metis
  from short_or_denylisted_records_are_skipped
         [of "archive_video ''Minecraft speedrun'' ''PT29M59S''" "''PT29M59S''"
             "(None, Some ''29'', Some ''59'')" ?rest] a4 r
  have 4: "scan_videos (archive_video ''Minecraft speedrun'' ''PT29M59S'' # ?rest) = Inr (JStr ''games'')"
    by metis
  from 1 2 3 4 show ?thesis by simp
qed

subsection \<open>C8: missing credentials look like a missing user\<close>

text \<open>
  C8. When the client identifier or the client secret is empty, then in every state the
  process reaches from its initial state by serving requests, \<^verbatim>\<open>getTwitchToken\<close> throws
  the configuration error, every lookup swallows it and returns \<^verbatim>\<open>null\<close> (the empty list
  for the videos) without touching the state, and for every valid username the route
  sends the ``not found'' message: the same text as for a user that the platform does not
  know.
\<close>

theorem unconfigured_looks_like_not_found:
  assumes "TWITCH_CLIENT_ID w = [] \<or> TWITCH_CLIENT_SECRET w = []"
    and "valid_username (clean_username user)"
    and "s = after_requests w history initial_state"
  shows "getTwitchToken w s = (Some (Inl ConfigError), s) \<and>
         getTwitchUser w username s = (Some JNull, s) \<and>
         getCurrentStream w userId s = (Some JNull, s) \<and>
         getChannelInfo w userId s = (Some JNull, s) \<and>
         getRecentVideos w userId s = (Some (JArr []), s) \<and>
         getLastPlayedGame w userId s = (Some JNull, s) \<and>
         resolveShoutout w user s = (Some (msg_not_found (clean_username user)), s) \<and>
         (fst (getTwitchUser w' (clean_username user) s') = Some u \<longrightarrow> \<not> truthy u \<longrightarrow>
            fst (resolveShoutout w' user s') = fst (resolveShoutout w user s))"
proof -
  have init: "\<not> truthy (twitchToken initial_state)" by (simp add: initial_state_def)
  from unconfigured_history [OF assms(1) init] assms(3) have "s = initial_state" by simp
  with init have tok: "\<not> truthy (twitchToken s)" by simp
  note look = unconfigured_lookups [OF assms(1) tok]
  have 1: "getTwitchToken w s = (Some (Inl ConfigError), s)"
    by (rule unconfigured_token [OF assms(1) tok])
  have 2: "getLastPlayedGame w userId s = (Some JNull, s)"
    by (rule unconfigured_resolver [OF assms(1) tok])
  have 3: "resolveShoutout w user s = (Some (msg_not_found (clean_username user)), s)"
    using shoutout_body_not_found [OF look(1) [of "clean_username user"]]
    by (simp add: resolveShoutout_valid [OF assms(2)])
  have 4: "fst (getTwitchUser w' (clean_username user) s') = Some u \<longrightarrow> \<not> truthy u \<longrightarrow>
            fst (resolveShoutout w' user s') = fst (resolveShoutout w user s)"
  proof (intro impI)
    assume n: "fst (getTwitchUser w' (clean_username user) s') = Some u" and f: "\<not> truthy u"
    from n obtain s1 where u: "getTwitchUser w' (clean_username user) s' = (Some u, s1)"
      by (cases "getTwitchUser w' (clean_username user) s'") simp
    from shoutout_body_not_found [OF u f] 3
    show "fst (resolveShoutout w' user s') = fst (resolveShoutout w user s)"
      by (simp add: resolveShoutout_valid [OF assms(2)])
  qed
  from 1 look 2 3 4 show ?thesis by blast
qed

text \<open>A process started without credentials, asked for \<^verbatim>\<open>ninja\<close> after two other
  requests.\<close>

theorem unconfigured_looks_like_not_found_witness:
  "resolveShoutout world_unconfigured ''ninja''
     (after_requests world_unconfigured [''shroud'', ''@pokimane''] initial_state) =
     (Some (msg_not_found ''ninja''), initial_state) \<and>
   getTwitchToken world_unconfigured initial_state = (Some (Inl ConfigError), initial_state)"
proof -
  have 1: "TWITCH_CLIENT_ID world_unconfigured = [] \<or> TWITCH_CLIENT_SECRET world_unconfigured = []"
    by (simp add: world_unconfigured_def)
  have 2: "valid_username (clean_username ''ninja'')" by code_simp
  have 3: "clean_username ''ninja'' = ''ninja''" by code_simp
  have 4: "after_requests world_unconfigured [''shroud'', ''@pokimane''] initial_state =
             initial_state" by code_simp
  from unconfigured_looks_like_not_found [OF 1 2 refl, of "[''shroud'', ''@pokimane'']"] 3 4
  show ?thesis by simp
qed

subsection \<open>C9: the string \<^verbatim>\<open>games\<close> is the generic signal\<close>

text \<open>
  C9. For a valid username whose lookup returns a user: whenever the resolver returns
  the string \<^verbatim>\<open>"games"\<close>, and in particular whenever the live snapshot's category is
  literally \<^verbatim>\<open>games\<close>, the route sends the generic gaming sentence, which differs from
  the specific-game sentence naming \<^verbatim>\<open>games\<close>.
\<close>

theorem games_is_the_generic_signal:
  assumes "valid_username (clean_username user)"
    and "getTwitchUser w (clean_username user) s = (Some u, s1)"
    and "truthy u"
    and "get_prop u ''id'' = Inr userId"
  shows "(getLastPlayedGame w userId s1 = (Some (JStr ''games''), s2) \<longrightarrow>
            resolveShoutout w user s = (Some (msg_generic (clean_username user)), s2)) \<and>
         (getCurrentStream w userId s1 = (Some stream, s2) \<longrightarrow> truthy stream \<longrightarrow>
            get_prop stream ''game_name'' = Inr (JStr ''games'') \<longrightarrow>
            resolveShoutout w user s = (Some (msg_generic (clean_username user)), s2)) \<and>
         msg_generic (clean_username user) \<noteq> msg_specific (clean_username user) ''games'' \<and>
         resolved_as (JStr ''games'') = Generic"
proof -
  have A: "getLastPlayedGame w userId s1 = (Some (JStr ''games''), s2) \<Longrightarrow>
            resolveShoutout w user s = (Some (msg_generic (clean_username user)), s2)"
    using shoutout_body_found [OF assms(2) assms(3) assms(4)]
    by (simp add: resolveShoutout_valid [OF assms(1)] compose_def)
  have B: "getCurrentStream w userId s1 = (Some stream, s2) \<longrightarrow> truthy stream \<longrightarrow>
            get_prop stream ''game_name'' = Inr (JStr ''games'') \<longrightarrow>
            resolveShoutout w user s = (Some (msg_generic (clean_username user)), s2)"
  proof (intro impI)
    assume "getCurrentStream w userId s1 = (Some stream, s2)" "truthy stream"
      "get_prop stream ''game_name'' = Inr (JStr ''games'')"
    then have "getLastPlayedGame w userId s1 = (Some (JStr ''games''), s2)"
      by (simp add: getLastPlayedGame_def named_game_def)
    then show "resolveShoutout w user s = (Some (msg_generic (clean_username user)), s2)"
      by (rule A)
  qed
  have C: "msg_generic (clean_username user) \<noteq> msg_specific (clean_username user) ''games''"
    by (simp add: msg_generic_def msg_specific_def)
  have D: "resolved_as (JStr ''games'') = Generic" by (simp add: resolved_as_def)
  from A B C D show ?thesis by blast
qed

text \<open>A channel live in a category named \<^verbatim>\<open>games\<close>.\<close>

theorem games_is_the_generic_signal_witness:
  "fst (resolveShoutout (world_live ''games'') ''@shroud'' initial_state) =
     Some ''Check out shroud, great gaming content at https://twitch.tv/shroud!''"
proof -
  have 1: "valid_username (clean_username ''@shroud'')" by code_simp
  have 2: "getTwitchUser (world_live ''games'') (clean_username ''@shroud'') initial_state =
      (Some (JObj [(''id'', JStr ''42'')]),
       \<lparr>twitchToken = JStr ''tok'', tokenExpiry = Fin 3541000, ticks = 1,
        sent = [TokenPost ''client_id=abc&client_secret=xyz&grant_type=client_credentials'',
                ApiGet ''/helix/users?login=shroud'' ''Bearer tok'' ''abc'']\<rparr>)"
    by code_simp
  have 3: "truthy (JObj [(''id'', JStr ''42'')])" by simp
  have 4: "get_prop (JObj [(''id'', JStr ''42'')]) ''id'' = Inr (JStr ''42'')" by simp
  have 5: "getCurrentStream (world_live ''games'') (JStr ''42'')
       \<lparr>twitchToken = JStr ''tok'', tokenExpiry = Fin 3541000, ticks = 1,
        sent = [TokenPost ''client_id=abc&client_secret=xyz&grant_type=client_credentials'',
                ApiGet ''/helix/users?login=shroud'' ''Bearer tok'' ''abc'']\<rparr> =
      (Some (JObj [(''game_name'', JStr ''games''), (''title'', JStr ''ranked'')]),
       \<lparr>twitchToken = JStr ''tok'', tokenExpiry = Fin 3541000, ticks = 2,
        sent = [TokenPost ''client_id=abc&client_secret=xyz&grant_type=client_credentials'',
                ApiGet ''/helix/users?login=shroud'' ''Bearer tok'' ''abc'',
                ApiGet ''/helix/streams?user_id=42'' ''Bearer tok'' ''abc'']\<rparr>)"
    by code_simp
  have 6: "truthy (JObj [(''game_name'', JStr ''games''), (''title'', JStr ''ranked'')])" by simp
  have 7: "get_prop (JObj [(''game_name'', JStr ''games''), (''title'', JStr ''ranked'')])
             ''game_name'' = Inr (JStr ''games'')" by simp
  have 8: "msg_generic (clean_username ''@shroud'') =
             ''Check out shroud, great gaming content at https://twitch.tv/shroud!''"
    by code_simp
  from games_is_the_generic_signal [OF 1 2 3 4] 5 6 7 8 show ?thesis by simp
qed

subsection \<open>C10: the duration filter reads hours and minutes only\<close>

text \<open>
  C10. The loop body returns the generic signal for a record only if its duration string
  matches with \<^verbatim>\<open>hours * 60 + minutes\<close> strictly above 30, the seconds group playing no
  part; a record with at most 30 is skipped. Hence \<^verbatim>\<open>PT30M\<close>, and \<^verbatim>\<open>PT30M\<close> followed by
  any number of seconds (\<^verbatim>\<open>PT30M59S\<close>), count 30 minutes and are skipped, and a duration
  given in seconds only (\<^verbatim>\<open>PT3600S\<close>) counts 0 minutes and is skipped.
\<close>

theorem duration_filter_ignores_seconds:
  "(video_is_game v = Inr True \<longrightarrow>
      (\<exists>d h m sec. get_prop v ''duration'' = Inr (JStr d) \<and> durationMatch d = Some (h, m, sec) \<and>
         30 < group_or_zero h * 60 + group_or_zero m)) \<and>
   (get_prop v ''duration'' = Inr (JStr d) \<longrightarrow> durationMatch d = Some (h, m, sec) \<longrightarrow>
      group_or_zero h * 60 + group_or_zero m \<le> 30 \<longrightarrow>
      scan_videos (v # rest) = scan_videos rest) \<and>
   (list_all is_digit ds \<longrightarrow> ds \<noteq> [] \<longrightarrow>
      durationMatch (''PT30M'' @ ds @ ''S'') = Some (None, Some ''30'', Some ds) \<and>
      totalMinutes (None, Some ''30'', Some ds) = 30 \<and>
      (get_prop v ''duration'' = Inr (JStr (''PT30M'' @ ds @ ''S'')) \<longrightarrow>
         scan_videos (v # rest) = scan_videos rest)) \<and>
   durationMatch ''PT30M'' = Some (None, Some ''30'', None) \<and>
   totalMinutes (None, Some ''30'', None) = 30 \<and>
   (get_prop v ''duration'' = Inr (JStr ''PT30M'') \<longrightarrow>
      scan_videos (v # rest) = scan_videos rest) \<and>
   (list_all is_digit ds \<longrightarrow> ds \<noteq> [] \<longrightarrow>
      durationMatch (''PT'' @ ds @ ''S'') = Some (None, None, Some ds) \<and>
      totalMinutes (None, None, Some ds) = 0 \<and>
      (get_prop v ''duration'' = Inr (JStr (''PT'' @ ds @ ''S'')) \<longrightarrow>
         scan_videos (v # rest) = scan_videos rest))"
proof -
  have A: "video_is_game v = Inr True \<longrightarrow>
      (\<exists>d h m sec. get_prop v ''duration'' = Inr (JStr d) \<and> durationMatch d = Some (h, m, sec) \<and>
         30 < group_or_zero h * 60 + group_or_zero m)"
  proof
    assume "video_is_game v = Inr True"
    from video_is_game_True [OF this] obtain d g where
      "get_prop v ''duration'' = Inr (JStr d)" "durationMatch d = Some g" "30 < totalMinutes g"
      by blast
    then show "\<exists>d h m sec. get_prop v ''duration'' = Inr (JStr d) \<and>
        durationMatch d = Some (h, m, sec) \<and> 30 < group_or_zero h * 60 + group_or_zero m"
      by (cases g) (auto simp: totalMinutes_def)
  qed
  have B: "\<And>d g. get_prop v ''duration'' = Inr (JStr d) \<Longrightarrow> durationMatch d = Some g \<Longrightarrow>
      totalMinutes g \<le> 30 \<Longrightarrow> scan_videos (v # rest) = scan_videos rest"
    by (rule scan_videos_skip) (rule video_is_game_short)
  have t30: "\<And>x. totalMinutes (None, Some ''30'', x) = 30"
    by (simp add: totalMinutes_def group_or_zero_None group_or_zero_30)
  have t0: "\<And>x. totalMinutes (None, None, x) = 0"
    by (simp add: totalMinutes_def group_or_zero_None)
  have m30: "durationMatch ''PT30M'' = Some (None, Some ''30'', None)" by code_simp
  have B': "get_prop v ''duration'' = Inr (JStr d) \<longrightarrow> durationMatch d = Some (h, m, sec) \<longrightarrow>
      group_or_zero h * 60 + group_or_zero m \<le> 30 \<longrightarrow>
      scan_videos (v # rest) = scan_videos rest"
    using B [of d "(h, m, sec)"] by (simp add: totalMinutes_def)
  have C: "list_all is_digit ds \<longrightarrow> ds \<noteq> [] \<longrightarrow>
      durationMatch (''PT30M'' @ ds @ ''S'') = Some (None, Some ''30'', Some ds) \<and>
      totalMinutes (None, Some ''30'', Some ds) = 30 \<and>
      (get_prop v ''duration'' = Inr (JStr (''PT30M'' @ ds @ ''S'')) \<longrightarrow>
         scan_videos (v # rest) = scan_videos rest)"
    using thirty_minutes_match [of ds] B [of "''PT30M'' @ ds @ ''S''" "(None, Some ''30'', Some ds)"]
    by (simp add: t30)
  have D: "get_prop v ''duration'' = Inr (JStr ''PT30M'') \<longrightarrow>
      scan_videos (v # rest) = scan_videos rest"
    using B [of "''PT30M''" "(None, Some ''30'', None)"] m30 by (simp add: t30)
  have E: "list_all is_digit ds \<longrightarrow> ds \<noteq> [] \<longrightarrow>
      durationMatch (''PT'' @ ds @ ''S'') = Some (None, None, Some ds) \<and>
      totalMinutes (None, None, Some ds) = 0 \<and>
      (get_prop v ''duration'' = Inr (JStr (''PT'' @ ds @ ''S'')) \<longrightarrow>
         scan_videos (v # rest) = scan_videos rest)"
    using seconds_only_match [of ds] B [of "''PT'' @ ds @ ''S''" "(None, None, Some ds)"]
    by (simp add: t0)
  from A B' C m30 t30 D E show ?thesis by blast
qed

text \<open>One hour in seconds, thirty minutes with and without seconds: all skipped; 31
  minutes qualifies.\<close>

theorem duration_filter_ignores_seconds_witness:
  "scan_videos [archive_video ''Ranked grind'' ''PT3600S''] = Inr JNull \<and>
   scan_videos [archive_video ''Ranked grind'' ''PT30M59S''] = Inr JNull \<and>
   scan_videos [archive_video ''Ranked grind'' ''PT30M''] = Inr JNull \<and>
   video_is_game (archive_video ''Ranked grind'' ''PT31M'') = Inr True \<and>
   (\<exists>d h m sec. get_prop (archive_video ''Ranked grind'' ''PT31M'') ''duration'' = Inr (JStr d) \<and>
      durationMatch d = Some (h, m, sec) \<and> 30 < group_or_zero h * 60 + group_or_zero m)"
proof -
  have d1: "list_all is_digit ''3600'' \<and> ''3600'' \<noteq> []" by code_simp
  have g1: "get_prop (archive_video ''Ranked grind'' ''PT3600S'') ''duration'' =
              Inr (JStr (''PT'' @ ''3600'' @ ''S''))" by code_simp
  have d2: "list_all is_digit ''59'' \<and> ''59'' \<noteq> []" by code_simp
  have g2: "get_prop (archive_video ''Ranked grind'' ''PT30M59S'') ''duration'' =
              Inr (JStr (''PT30M'' @ ''59'' @ ''S''))" by code_simp
  have g3: "get_prop (archive_video ''Ranked grind'' ''PT30M'') ''duration'' = Inr (JStr ''PT30M'')"
    by code_simp
  have g4: "video_is_game (archive_video ''Ranked grind'' ''PT31M'') = Inr True" by code_simp
  have e: "scan_videos [] = Inr JNull" by simp
  from duration_filter_ignores_seconds
         [of "archive_video ''Ranked grind'' ''PT3600S''" _ _ _ _ "[]" "''3600''"] d1 g1 e
  have 1: "scan_videos [archive_video ''Ranked grind'' ''PT3600S''] = Inr JNull" by metis
  from duration_filter_ignores_seconds
         [of "archive_video ''Ranked grind'' ''PT30M59S''" _ _ _ _ "[]" "''59''"] d2 g2 e
  have 2: "scan_videos [archive_video ''Ranked grind'' ''PT30M59S''] = Inr JNull" by metis
  from duration_filter_ignores_seconds
         [of "archive_video ''Ranked grind'' ''PT30M''" _ _ _ _ "[]"] g3 e
  have 3: "scan_videos [archive_video ''Ranked grind'' ''PT30M''] = Inr JNull" by metis
  from duration_filter_ignores_seconds [of "archive_video ''Ranked grind'' ''PT31M''"] g4
  have 4: "\<exists>d h m sec. get_prop (archive_video ''Ranked grind'' ''PT31M'') ''duration'' = Inr (JStr d) \<and>
      durationMatch d = Some (h, m, sec) \<and> 30 < group_or_zero h * 60 + group_or_zero m"
    by blast
  from 1 2 3 g4 4 show ?thesis by blast
qed

end
